theory Spec2Isabelle
  imports Complex_Main "HOL-Library.Log_Nat" "HOL-Library.Sublist" "HOL-Library.Multiset"
begin

section \<open>Text\<close>

text \<open>
  A Python \<open>str\<close> is a sequence of Unicode code points, so it is modelled as a list of
  code points, each an integer. \<open>ascii\<close> reads an ASCII literal; the Japanese literals
  of the source are given by their code points.
\<close>

type_synonym pystr = "int list"

definition ascii :: "string \<Rightarrow> pystr" where
  "ascii s = map of_char s"

definition NA :: pystr where
  "NA = ascii ''N/A''"

definition AMAZON :: pystr where
  "AMAZON = ascii ''Amazon''"

definition SUCCESS :: pystr where
  "SUCCESS = ascii ''success''"

definition ERROR :: pystr where
  "ERROR = ascii ''error''"

text \<open>The error sentinel written into every field of a failed result (U+30A8 U+30E9 U+30FC).\<close>

definition ERR :: pystr where
  "ERR = [0x30A8, 0x30E9, 0x30FC]"

text \<open>Condition "new" (U+65B0 U+54C1) and the marker of a used item (U+4E2D U+53E4).\<close>

definition NEW_COND :: pystr where
  "NEW_COND = [0x65B0, 0x54C1]"

definition USED_MARK :: pystr where
  "USED_MARK = [0x4E2D, 0x53E4]"

text \<open>Stock verdicts "sufficient" (U+5341 U+5206) and "insufficient" (U+4E0D U+5341 U+5206).\<close>

definition SUFFICIENT :: pystr where
  "SUFFICIENT = [0x5341, 0x5206]"

definition INSUFFICIENT :: pystr where
  "INSUFFICIENT = [0x4E0D, 0x5341, 0x5206]"

text \<open>
  Availability phrases: "in stock" (U+5728 U+5EAB U+3042 U+308A), "remaining"
  (U+6B8B U+308A) and the counter "items" (U+70B9); "free" for shipping (U+7121 U+6599).
\<close>

definition IN_STOCK :: pystr where
  "IN_STOCK = [0x5728, 0x5EAB, 0x3042, 0x308A]"

definition REMAINING :: pystr where
  "REMAINING = [0x6B8B, 0x308A]"

definition ITEMS :: pystr where
  "ITEMS = [0x70B9]"

definition FREE :: pystr where
  "FREE = [0x7121, 0x6599]"

definition COMMA :: int where
  "COMMA = 0x2C"

definition SPACE :: int where
  "SPACE = 0x20"

text \<open>\<open>starts_with p s\<close> is \<open>s.startswith(p)\<close>; \<open>py_in p s\<close> is the substring test \<open>p in s\<close>.\<close>

fun starts_with :: "pystr \<Rightarrow> pystr \<Rightarrow> bool" where
  "starts_with [] s = True"
| "starts_with (p # ps) [] = False"
| "starts_with (p # ps) (c # cs) = (p = c \<and> starts_with ps cs)"

fun py_in :: "pystr \<Rightarrow> pystr \<Rightarrow> bool" where
  "py_in p [] = (p = [])"
| "py_in p (c # cs) = (starts_with p (c # cs) \<or> py_in p cs)"

text \<open>
  The class \<open>\d\<close> of a \<open>str\<close> pattern is the Unicode category Nd, and \<open>int()\<close> reads
  every such character by its decimal value. The category consists of blocks of ten
  consecutive code points for the values 0 to 9; \<open>decimal_bases\<close> lists the first code
  point of each block (Unicode 14).
\<close>

definition decimal_bases :: "int list" where
  "decimal_bases =
    [0x30, 0x660, 0x6F0, 0x7C0, 0x966, 0x9E6, 0xA66, 0xAE6, 0xB66, 0xBE6, 0xC66, 0xCE6,
     0xD66, 0xDE6, 0xE50, 0xED0, 0xF20, 0x1040, 0x1090, 0x17E0, 0x1810, 0x1946, 0x19D0,
     0x1A80, 0x1A90, 0x1B50, 0x1BB0, 0x1C40, 0x1C50, 0xA620, 0xA8D0, 0xA900, 0xA9D0,
     0xA9F0, 0xAA50, 0xABF0, 0xFF10, 0x104A0, 0x10D30, 0x11066, 0x110F0, 0x11136,
     0x111D0, 0x112F0, 0x11450, 0x114D0, 0x11650, 0x116C0, 0x11730, 0x118E0, 0x11950,
     0x11C50, 0x11D50, 0x11DA0, 0x16A60, 0x16AC0, 0x16B50, 0x1D7CE, 0x1D7D8, 0x1D7E2,
     0x1D7EC, 0x1D7F6, 0x1E140, 0x1E2F0, 0x1E950, 0x1FBF0]"

definition decimal_value :: "int \<Rightarrow> int option" where
  "decimal_value c =
     (case find (\<lambda>b. b \<le> c \<and> c < b + 10) decimal_bases of
        None \<Rightarrow> None
      | Some b \<Rightarrow> Some (c - b))"

definition is_digit :: "int \<Rightarrow> bool" where
  "is_digit c = (decimal_value c \<noteq> None)"

text \<open>The characters \<open>str.split()\<close> treats as white space (\<open>str.isspace\<close>).\<close>

definition is_space :: "int \<Rightarrow> bool" where
  "is_space c =
     (c \<in> set [0x9, 0xA, 0xB, 0xC, 0xD, 0x1C, 0x1D, 0x1E, 0x1F, 0x20, 0x85, 0xA0, 0x1680,
               0x2000, 0x2001, 0x2002, 0x2003, 0x2004, 0x2005, 0x2006, 0x2007, 0x2008,
               0x2009, 0x200A, 0x2028, 0x2029, 0x202F, 0x205F, 0x3000])"

text \<open>
  \<open>runs P w s\<close> lists the maximal runs of characters of \<open>s\<close> that satisfy \<open>P\<close>, from left
  to right; \<open>w\<close> is the run being read. It is \<open>re.findall\<close> for a pattern \<open>[...]+\<close> and,
  with the complement of white space, \<open>str.split()\<close>.
\<close>

fun runs :: "(int \<Rightarrow> bool) \<Rightarrow> pystr \<Rightarrow> pystr \<Rightarrow> pystr list" where
  "runs P w [] = (if w = [] then [] else [w])"
| "runs P w (c # cs) =
     (if P c then runs P (w @ [c]) cs
      else if w = [] then runs P [] cs
      else w # runs P [] cs)"

definition py_split :: "pystr \<Rightarrow> pystr list" where
  "py_split s = runs (\<lambda>c. \<not> is_space c) [] s"

fun py_join :: "pystr \<Rightarrow> pystr list \<Rightarrow> pystr" where
  "py_join sep [] = []"
| "py_join sep [w] = w"
| "py_join sep (w # v # ws) = w @ sep @ py_join sep (v # ws)"

text \<open>
  \<open>int(s)\<close> for a non-empty string of decimal digits. The interpreter's configurable
  limit on the number of digits is not modelled.
\<close>

definition int_of_digits :: "pystr \<Rightarrow> int" where
  "int_of_digits s =
     foldl (\<lambda>a c. 10 * a + (case decimal_value c of None \<Rightarrow> 0 | Some d \<Rightarrow> d)) 0 s"

section \<open>Cleaning of price and shipping texts\<close>

text \<open>
  \<open>_clean_price\<close>: the argument is \<open>None\<close> when the price node is absent. The result
  is \<open>None\<close> for a missing or empty text, for a text without a run of digits and commas,
  and when the last such run holds commas only.
\<close>

definition clean_price :: "pystr option \<Rightarrow> int option" where
  "clean_price price_text =
     (case price_text of
        None \<Rightarrow> None
      | Some t \<Rightarrow>
          if t = [] then None
          else (let numbers = runs (\<lambda>c. is_digit c \<or> c = COMMA) [] t in
                if numbers = [] then None
                else (let price_digits = filter (\<lambda>c. c \<noteq> COMMA) (last numbers) in
                      if price_digits = [] then None
                      else Some (int_of_digits price_digits))))"

text \<open>\<open>_clean_shipping_fee\<close>: empty text or the word "free" give 0; otherwise the digits.\<close>

definition clean_shipping_fee :: "pystr \<Rightarrow> int" where
  "clean_shipping_fee shipping_text =
     (if shipping_text = [] then 0
      else if py_in FREE shipping_text then 0
      else (let fee_digits = filter is_digit shipping_text in
            if fee_digits = [] then 0 else int_of_digits fee_digits))"

section \<open>Data\<close>

text \<open>
  A value that may be an integer, a string or \<open>None\<close>: the buy-box price is the parsed
  integer, the string "N/A" when the page has no price node, and \<open>None\<close> when the node's
  text holds no digits; the fields of a result are integers on success and the error
  sentinel on failure.
\<close>

datatype pyval = PInt int | PStr pystr | PNone

text \<open>
  The dictionary \<open>_parse_side_panel_offers\<close> builds for one offer. Its price is always
  an integer, as entries without a parsed price are skipped.
\<close>

record offer =
  price :: int
  shipping_fee :: int
  seller :: pystr
  shipper :: pystr
  condition :: pystr

text \<open>The dictionary \<open>_parse_main_page_buybox\<close> builds: the six keys are always present.\<close>

record buybox =
  bb_price :: pyval
  bb_seller :: pystr
  bb_shipper :: pystr
  real_stock :: int
  bb_shipping_fee :: int
  bb_condition :: pystr

section \<open>Page extraction\<close>

text \<open>
  The parsed pages are read through \<open>select_one\<close>, \<open>.text\<close> and \<open>get_text(strip=True)\<close>,
  which belong to the HTML library. A page is therefore given by what these lookups
  return: \<open>None\<close> for a node that is absent, the node's text otherwise (a node that is
  found is truthy, whatever its text).
\<close>

record main_soup =
  price_span :: "pystr option"
  availability_div :: "pystr option"
  seller_feature :: "pystr option"
  shipper_feature :: "pystr option"

text \<open>
  \<open>re.search\<close> for the pattern "remaining" \<open>(\d+)\<close> "items": the group of the leftmost
  match. The counter is not a digit, so the group is the whole run of digits that
  follows the phrase.
\<close>

definition match_remaining :: "pystr \<Rightarrow> pystr option" where
  "match_remaining s =
     (if starts_with REMAINING s then
        (let r = drop (length REMAINING) s;
             ds = takeWhile is_digit r
         in if ds \<noteq> [] \<and> starts_with ITEMS (dropWhile is_digit r) then Some ds else None)
      else None)"

fun search_remaining :: "pystr \<Rightarrow> pystr option" where
  "search_remaining [] = None"
| "search_remaining (c # cs) =
     (case match_remaining (c # cs) of
        Some ds \<Rightarrow> Some ds
      | None \<Rightarrow> search_remaining cs)"

definition parse_main_page_buybox :: "main_soup \<Rightarrow> buybox" where
  "parse_main_page_buybox soup =
     (let p = (case price_span soup of
                 None \<Rightarrow> PStr NA
               | Some t \<Rightarrow> (case clean_price (Some t) of None \<Rightarrow> PNone | Some n \<Rightarrow> PInt n));
          c = (case p of PInt n \<Rightarrow> NEW_COND | _ \<Rightarrow> NA);
          stock = (case availability_div soup of
                     None \<Rightarrow> 0
                   | Some availability_text \<Rightarrow>
                       if py_in IN_STOCK availability_text then 30
                       else (case search_remaining availability_text of
                               Some ds \<Rightarrow> int_of_digits ds
                             | None \<Rightarrow> 0))
      in \<lparr> bb_price = p,
           bb_seller = (case seller_feature soup of None \<Rightarrow> NA | Some t \<Rightarrow> t),
           bb_shipper = (case shipper_feature soup of None \<Rightarrow> NA | Some t \<Rightarrow> t),
           real_stock = stock,
           bb_shipping_fee = 0,
           bb_condition = c \<rparr>)"

text \<open>
  One \<open>#aod-offer\<close> element of the secondary panel: the text of its condition heading,
  of its price node, the value of its \<open>data-csa-c-delivery-price\<close> attribute, the text of
  its shipping-charge node, and the seller and shipper texts.
\<close>

record offer_el =
  condition_span :: "pystr option"
  el_price_span :: "pystr option"
  delivery_price :: "pystr option"
  shipping_span :: "pystr option"
  seller_el :: "pystr option"
  shipper_el :: "pystr option"

text \<open>One round of the loop of \<open>_parse_side_panel_offers\<close>; \<open>None\<close> is \<open>continue\<close>.\<close>

definition parse_offer :: "offer_el \<Rightarrow> offer option" where
  "parse_offer offer_el =
     (case condition_span offer_el of
        None \<Rightarrow> None
      | Some heading \<Rightarrow>
          (let condition_text = py_join [SPACE] (py_split heading) in
           if py_in USED_MARK condition_text then None
           else (case clean_price (el_price_span offer_el) of
                   None \<Rightarrow> None
                 | Some p \<Rightarrow>
                     Some \<lparr> price = p,
                            shipping_fee =
                              (case delivery_price offer_el of
                                 Some a \<Rightarrow> clean_shipping_fee a
                               | None \<Rightarrow>
                                   (case shipping_span offer_el of
                                      Some t \<Rightarrow> clean_shipping_fee t
                                    | None \<Rightarrow> 0)),
                            seller = (case seller_el offer_el of None \<Rightarrow> NA | Some t \<Rightarrow> t),
                            shipper = (case shipper_el offer_el of None \<Rightarrow> NA | Some t \<Rightarrow> t),
                            condition = condition_text \<rparr>)))"

fun parse_side_panel_offers :: "offer_el list \<Rightarrow> offer list" where
  "parse_side_panel_offers [] = []"
| "parse_side_panel_offers (offer_el # rest) =
     (case parse_offer offer_el of
        None \<Rightarrow> parse_side_panel_offers rest
      | Some offer \<Rightarrow> offer # parse_side_panel_offers rest)"

section \<open>Floating point\<close>

text \<open>
  The tolerance multipliers are Python floats (IEEE 754 binary64), and the band bounds
  are products of an integer with a float. A float is modelled by its exact value, a
  rational, or as an infinity or NaN; the sign of zero is not kept, as no operation used
  here depends on it. Every arithmetic result is rounded to the nearest binary64 value,
  ties to even: 53 significant bits, exponents of the last bit from -1074 (subnormal) up,
  and infinity from \<open>2 ^ 1024\<close> on.
\<close>

datatype pyfloat = Fin rat | PInf | NInf | NaN

definition pow2 :: "int \<Rightarrow> rat" where
  "pow2 e = (if 0 \<le> e then 2 ^ nat e else 1 / 2 ^ nat (- e))"

definition round_half_even :: "rat \<Rightarrow> int" where
  "round_half_even x =
     (let f = \<lfloor>x\<rfloor>; d = x - of_int f
      in if d < 1 / 2 then f
         else if 1 / 2 < d then f + 1
         else if even f then f else f + 1)"

text \<open>\<open>ilog2 x\<close> is the integer \<open>k\<close> with \<open>2 ^ k \<le> x < 2 ^ (k + 1)\<close>, for positive \<open>x\<close>.\<close>

definition ilog2 :: "rat \<Rightarrow> int" where
  "ilog2 x =
     (let k = bitlen (fst (quotient_of x)) - bitlen (snd (quotient_of x))
      in if pow2 k \<le> x then k else k - 1)"

text \<open>The number \<open>2 ^ 1024\<close>, from which on a rounded result is infinite.\<close>

definition DBL_OVERFLOW :: rat where
  "DBL_OVERFLOW =
     179769313486231590772930519078902473361797697894230657273430081157732675805500963132708477322407536021120113879871393357658789768814416622492847430639474124377767893424865485276302219601246094119453082952085005768838150682342462881473913110540827237163350510684586298239947245938479716304835356329624224137216"

definition round_pos :: "rat \<Rightarrow> pyfloat" where
  "round_pos x =
     (let e = max (ilog2 x - 52) (- 1074);
          r = of_int (round_half_even (x / pow2 e)) * pow2 e
      in if DBL_OVERFLOW \<le> r then PInf else Fin r)"

fun fneg :: "pyfloat \<Rightarrow> pyfloat" where
  "fneg (Fin r) = Fin (- r)"
| "fneg PInf = NInf"
| "fneg NInf = PInf"
| "fneg NaN = NaN"

definition round_double :: "rat \<Rightarrow> pyfloat" where
  "round_double x =
     (if x = 0 then Fin 0
      else if 0 < x then round_pos x
      else fneg (round_pos (- x)))"

text \<open>The product of two floats.\<close>

fun fmul :: "pyfloat \<Rightarrow> pyfloat \<Rightarrow> pyfloat" where
  "fmul (Fin a) (Fin b) = round_double (a * b)"
| "fmul NaN y = NaN"
| "fmul x NaN = NaN"
| "fmul (Fin a) PInf = (if a = 0 then NaN else if 0 < a then PInf else NInf)"
| "fmul (Fin a) NInf = (if a = 0 then NaN else if 0 < a then NInf else PInf)"
| "fmul PInf (Fin b) = (if b = 0 then NaN else if 0 < b then PInf else NInf)"
| "fmul NInf (Fin b) = (if b = 0 then NaN else if 0 < b then NInf else PInf)"
| "fmul PInf PInf = PInf"
| "fmul PInf NInf = NInf"
| "fmul NInf PInf = NInf"
| "fmul NInf NInf = PInf"

text \<open>The errors a resolution can meet.\<close>

datatype error = TimeoutException | WebDriverException | OverflowError

text \<open>
  \<open>float(n)\<close> for an integer: the nearest float, and \<open>OverflowError\<close> when that is out
  of range. \<open>n * x\<close> for an integer \<open>n\<close> and a float \<open>x\<close> converts \<open>n\<close> first.
\<close>

definition float_of_int :: "int \<Rightarrow> error + pyfloat" where
  "float_of_int n =
     (case round_double (of_int n) of
        Fin r \<Rightarrow> Inr (Fin r)
      | _ \<Rightarrow> Inl OverflowError)"

definition int_mul_float :: "int \<Rightarrow> pyfloat \<Rightarrow> error + pyfloat" where
  "int_mul_float n x =
     (case float_of_int n of
        Inl e \<Rightarrow> Inl e
      | Inr y \<Rightarrow> Inr (fmul y x))"

text \<open>
  Comparison of a float with an integer is exact in Python: the integer is not rounded.
  Every comparison with NaN is false.
\<close>

fun float_le_int :: "pyfloat \<Rightarrow> int \<Rightarrow> bool" where
  "float_le_int (Fin r) n = (r \<le> of_int n)"
| "float_le_int NInf n = True"
| "float_le_int PInf n = False"
| "float_le_int NaN n = False"

fun int_le_float :: "int \<Rightarrow> pyfloat \<Rightarrow> bool" where
  "int_le_float n (Fin r) = (of_int n \<le> r)"
| "int_le_float n PInf = True"
| "int_le_float n NInf = False"
| "int_le_float n NaN = False"

section \<open>Resolution of one product\<close>

text \<open>
  The buy-box dictionary is appended to \<open>all_offers\<close> only when its price is an integer,
  and from an element of the list only the keys \<open>price\<close>, \<open>shipping_fee\<close>, \<open>seller\<close>,
  \<open>shipper\<close> and \<open>condition\<close> are ever read. \<open>as_offer\<close> is the buy-box seen as such an
  element.
\<close>

definition as_offer :: "int \<Rightarrow> buybox \<Rightarrow> offer" where
  "as_offer p b =
     \<lparr> price = p, shipping_fee = bb_shipping_fee b, seller = bb_seller b,
       shipper = bb_shipper b, condition = bb_condition b \<rparr>"

definition all_offers :: "buybox \<Rightarrow> offer list \<Rightarrow> offer list" where
  "all_offers buybox_data side_offers =
     (case bb_price buybox_data of
        PInt p \<Rightarrow> [as_offer p buybox_data]
      | _ \<Rightarrow> []) @ side_offers"

text \<open>The key of deduplication: the tuple (price, seller, shipper).\<close>

type_synonym offer_key = "pyval \<times> pystr \<times> pystr"

definition offer_identifier :: "offer \<Rightarrow> offer_key" where
  "offer_identifier offer = (PInt (price offer), seller offer, shipper offer)"

definition buybox_identifier :: "buybox \<Rightarrow> offer_key" where
  "buybox_identifier b = (bb_price b, bb_seller b, bb_shipper b)"

text \<open>The loop that fills \<open>unique_offers\<close>, with the set \<open>seen\<close> of the keys met so far.\<close>

fun dedup_loop :: "offer list \<Rightarrow> offer list \<Rightarrow> offer_key set \<Rightarrow> offer list" where
  "dedup_loop [] unique seen = unique"
| "dedup_loop (offer # rest) unique seen =
     (if offer_identifier offer \<notin> seen
      then dedup_loop rest (unique @ [offer]) (insert (offer_identifier offer) seen)
      else dedup_loop rest unique seen)"

definition dedup :: "offer list \<Rightarrow> offer list" where
  "dedup offers = dedup_loop offers [] {}"

definition total_price :: "offer \<Rightarrow> int" where
  "total_price offer = price offer + shipping_fee offer"

definition is_fba :: "pystr \<Rightarrow> bool" where
  "is_fba shipper_text = py_in AMAZON shipper_text"

text \<open>
  What step 4 of \<open>get_product_data\<close> decides: the optimal price with the condition,
  shipper and seller that go with it, the number of effective sellers, and the price
  group.
\<close>

record selection =
  sel_price :: pyval
  sel_condition :: pystr
  sel_shipper :: pystr
  sel_seller :: pystr
  sel_count :: nat
  sel_group :: "offer list"

text \<open>The buy-box is taken as it is when it has a stock above 2, an integer price and is
  shipped by the platform.\<close>

definition buybox_trusted :: "buybox \<Rightarrow> bool" where
  "buybox_trusted b =
     (2 < real_stock b \<and> (case bb_price b of PInt p \<Rightarrow> True | _ \<Rightarrow> False)
      \<and> is_fba (bb_shipper b))"

text \<open>The loop that collects the offers whose total price lies between the two bounds.\<close>

fun band_loop :: "pyfloat \<Rightarrow> pyfloat \<Rightarrow> offer list \<Rightarrow> offer list \<Rightarrow> offer list" where
  "band_loop lb ub [] price_group = price_group"
| "band_loop lb ub (offer # rest) price_group =
     (if float_le_int lb (total_price offer) \<and> int_le_float (total_price offer) ub
      then band_loop lb ub rest (price_group @ [offer])
      else band_loop lb ub rest price_group)"

definition median_index :: "nat \<Rightarrow> nat" where
  "median_index n = (if n mod 2 = 1 then n div 2 else n div 2 - 1)"

text \<open>
  The branch taken when the buy-box is not trusted. The log line of the median formats
  the optimal price with \<open>.0f\<close>, which converts the integer to a float and can overflow.
\<close>

definition band_rule :: "offer list \<Rightarrow> pyfloat \<Rightarrow> pyfloat \<Rightarrow> error + selection" where
  "band_rule unique lower_multiplier upper_multiplier =
     (let sorted_for_grouping = sort_key total_price unique in
      if 3 \<le> length sorted_for_grouping then
        (let base_price = total_price (sorted_for_grouping ! 2) in
         case int_mul_float base_price lower_multiplier of
           Inl e \<Rightarrow> Inl e
         | Inr price_lower_bound \<Rightarrow>
             (case int_mul_float base_price upper_multiplier of
                Inl e \<Rightarrow> Inl e
              | Inr price_upper_bound \<Rightarrow>
                  (let price_group = band_loop price_lower_bound price_upper_bound
                                       sorted_for_grouping [];
                       effective_sellers = length price_group
                   in if 3 \<le> effective_sellers then
                        (let sorted_price_group = sort_key total_price price_group;
                             median_offer =
                               sorted_price_group ! median_index (length sorted_price_group)
                         in case float_of_int (total_price median_offer) of
                              Inl e \<Rightarrow> Inl e
                            | Inr f \<Rightarrow>
                                Inr \<lparr> sel_price = PInt (total_price median_offer),
                                      sel_condition = condition median_offer,
                                      sel_shipper = shipper median_offer,
                                      sel_seller = seller median_offer,
                                      sel_count = effective_sellers,
                                      sel_group = price_group \<rparr>)
                      else
                        Inr \<lparr> sel_price = PStr NA, sel_condition = NA, sel_shipper = NA,
                              sel_seller = NA, sel_count = effective_sellers,
                              sel_group = price_group \<rparr>)))
      else
        Inr \<lparr> sel_price = PStr NA, sel_condition = NA, sel_shipper = NA, sel_seller = NA,
              sel_count = length sorted_for_grouping,
              sel_group = sorted_for_grouping \<rparr>)"

definition select_price ::
  "buybox \<Rightarrow> offer list \<Rightarrow> pyfloat \<Rightarrow> pyfloat \<Rightarrow> error + selection" where
  "select_price buybox_data unique lower_multiplier upper_multiplier =
     (case bb_price buybox_data of
        PInt p \<Rightarrow>
          if 2 < real_stock buybox_data \<and> is_fba (bb_shipper buybox_data) then
            Inr \<lparr> sel_price = PInt (p + bb_shipping_fee buybox_data),
                  sel_condition = bb_condition buybox_data,
                  sel_shipper = bb_shipper buybox_data,
                  sel_seller = bb_seller buybox_data,
                  sel_count = length unique,
                  sel_group = unique \<rparr>
          else band_rule unique lower_multiplier upper_multiplier
      | _ \<Rightarrow> band_rule unique lower_multiplier upper_multiplier)"

text \<open>Step 5: the price group without the entries that carry the buy-box's key.\<close>

fun display_loop :: "offer_key \<Rightarrow> offer list \<Rightarrow> offer list \<Rightarrow> offer list" where
  "display_loop bid [] display = display"
| "display_loop bid (offer # rest) display =
     (if offer_identifier offer \<noteq> bid
      then display_loop bid rest (display @ [offer])
      else display_loop bid rest display)"

text \<open>
  The buy-box dictionary as the result carries it. In a failed result its five keys
  hold the error sentinel and the key \<open>shipping_fee\<close> is absent.
\<close>

record buybox_dict =
  d_price :: pyval
  d_seller :: pystr
  d_shipper :: pystr
  d_real_stock :: pyval
  d_shipping_fee :: "int option"
  d_condition :: pystr

definition buybox_info_of :: "buybox \<Rightarrow> buybox_dict" where
  "buybox_info_of b =
     \<lparr> d_price = bb_price b, d_seller = bb_seller b, d_shipper = bb_shipper b,
       d_real_stock = PInt (real_stock b), d_shipping_fee = Some (bb_shipping_fee b),
       d_condition = bb_condition b \<rparr>"

record product_result =
  status :: pystr
  r_real_stock :: pyval
  total_offers :: pyval
  fba_count :: pyval
  fbm_count :: pyval
  inventory_score :: pyval
  effective_sellers_count :: pyval
  buybox_info :: buybox_dict
  offers :: "offer list"
  optimal_price :: pyval
  optimal_price_condition :: pystr
  optimal_price_shipper :: pystr
  optimal_price_seller :: pystr

definition get_error_result :: product_result where
  "get_error_result =
     \<lparr> status = ERROR, r_real_stock = PStr ERR, total_offers = PStr ERR,
       fba_count = PStr ERR, fbm_count = PStr ERR, inventory_score = PStr ERR,
       effective_sellers_count = PStr ERR,
       buybox_info = \<lparr> d_price = PStr ERR, d_seller = ERR, d_shipper = ERR,
                        d_real_stock = PStr ERR, d_shipping_fee = None,
                        d_condition = ERR \<rparr>,
       offers = [],
       optimal_price = PStr ERR, optimal_price_condition = ERR,
       optimal_price_shipper = ERR, optimal_price_seller = ERR \<rparr>"

text \<open>Steps 3 to 5 of \<open>get_product_data\<close>, from the two parsed pages.\<close>

definition aggregate ::
  "buybox \<Rightarrow> offer list \<Rightarrow> pyfloat \<Rightarrow> pyfloat \<Rightarrow> product_result" where
  "aggregate buybox_data side_offers lower_multiplier upper_multiplier =
     (let unique = dedup (all_offers buybox_data side_offers);
          total_offers_count = length unique;
          fba = sum_list (map (\<lambda>offer. 1) (filter (\<lambda>offer. is_fba (shipper offer)) unique));
          fbm = int total_offers_count - fba;
          score = fba * 2 + fbm
      in case select_price buybox_data unique lower_multiplier upper_multiplier of
           Inl e \<Rightarrow> get_error_result
         | Inr sel \<Rightarrow>
             \<lparr> status = SUCCESS,
               r_real_stock = PInt (real_stock buybox_data),
               total_offers = PInt (int total_offers_count),
               fba_count = PInt fba,
               fbm_count = PInt fbm,
               inventory_score = PInt score,
               effective_sellers_count = PInt (int (sel_count sel)),
               buybox_info = buybox_info_of buybox_data,
               offers = sort_key total_price
                          (display_loop (buybox_identifier buybox_data) (sel_group sel) []),
               optimal_price = sel_price sel,
               optimal_price_condition = sel_condition sel,
               optimal_price_shipper = sel_shipper sel,
               optimal_price_seller = sel_seller sel \<rparr>)"

text \<open>
  \<open>get_product_data\<close>. The browser is outside the model: \<open>driver\<close> tells whether it was
  initialised, and each page is given by the outcome of loading it, an exception or the
  page that is then parsed. The panel's filter clicks are tolerated by the source
  whatever they do, so the panel's outcome is the page rendered after them.
\<close>

definition get_product_data ::
  "bool \<Rightarrow> error + main_soup \<Rightarrow> error + offer_el list \<Rightarrow> pyfloat \<Rightarrow> pyfloat
     \<Rightarrow> product_result" where
  "get_product_data driver main_page side_panel lower_multiplier upper_multiplier =
     (if \<not> driver then get_error_result
      else case main_page of
             Inl e \<Rightarrow> get_error_result
           | Inr main_page_soup \<Rightarrow>
               (let buybox_data = parse_main_page_buybox main_page_soup in
                case side_panel of
                  Inl e \<Rightarrow> get_error_result
                | Inr side_panel_soup \<Rightarrow>
                    aggregate buybox_data (parse_side_panel_offers side_panel_soup)
                      lower_multiplier upper_multiplier))"

section \<open>The output row\<close>

definition MAX_OFFERS_TO_DISPLAY :: nat where
  "MAX_OFFERS_TO_DISPLAY = 10"

text \<open>The stock verdict of \<open>run_in_thread\<close>, with its \<open>isinstance\<close> tests.\<close>

definition stock_sufficient :: "product_result \<Rightarrow> bool" where
  "stock_sufficient data =
     ((case r_real_stock data of
         PInt n \<Rightarrow> 2 < n \<and> is_fba (d_shipper (buybox_info data))
       | _ \<Rightarrow> False)
      \<or> (case inventory_score data of PInt s \<Rightarrow> 4 \<le> s | _ \<Rightarrow> False))"

definition offer_cells :: "offer \<Rightarrow> pyval list" where
  "offer_cells offer =
     [PInt (price offer), PInt (shipping_fee offer), PStr (condition offer),
      PStr (shipper offer), PStr (seller offer)]"

text \<open>The list \<open>values_to_write\<close> that \<open>run_in_thread\<close> builds from a result.\<close>

definition values_to_write :: "product_result \<Rightarrow> pyval list" where
  "values_to_write data =
     (if status data = SUCCESS then
        [optimal_price data, PStr (optimal_price_condition data),
         PStr (optimal_price_shipper data), PStr (optimal_price_seller data),
         PStr (if stock_sufficient data then SUFFICIENT else INSUFFICIENT),
         inventory_score data, r_real_stock data, effective_sellers_count data,
         total_offers data, fba_count data, fbm_count data,
         d_price (buybox_info data), PStr (d_condition (buybox_info data)),
         PStr (d_shipper (buybox_info data)), PStr (d_seller (buybox_info data))]
        @ concat (map offer_cells (take MAX_OFFERS_TO_DISPLAY (offers data)))
      else replicate 15 (PStr ERR))"

text \<open>The default multipliers 0.85 and 1.15, as the floats these literals denote.\<close>

definition DEFAULT_LOWER :: pyfloat where
  "DEFAULT_LOWER = Fin (7656119366529843 / 9007199254740992)"

definition DEFAULT_UPPER :: pyfloat where
  "DEFAULT_UPPER = Fin (2589569785738035 / 2251799813685248)"

section \<open>Example pages\<close>

text \<open>Builders for the concrete pages and offers that the witnesses below evaluate.\<close>

definition mk_offer :: "int \<Rightarrow> int \<Rightarrow> string \<Rightarrow> string \<Rightarrow> offer" where
  "mk_offer p fee seller_name shipper_name =
     \<lparr> price = p, shipping_fee = fee, seller = ascii seller_name,
       shipper = ascii shipper_name, condition = NEW_COND \<rparr>"

text \<open>A panel entry in condition "new" with the given price, seller and shipper texts.\<close>

definition panel_entry :: "string \<Rightarrow> string \<Rightarrow> string \<Rightarrow> offer_el" where
  "panel_entry price_text seller_name shipper_name =
     \<lparr> condition_span = Some NEW_COND, el_price_span = Some (ascii price_text),
       delivery_price = None, shipping_span = None,
       seller_el = Some (ascii seller_name), shipper_el = Some (ascii shipper_name) \<rparr>"

text \<open>
  A primary page whose buy-box shows 1,000 yen (the price text starts with the
  full-width yen sign U+FFE5), "5 remaining", sold and shipped by the platform.
\<close>

definition trusted_page :: main_soup where
  "trusted_page =
     \<lparr> price_span = Some (0xFFE5 # ascii ''1,000''),
       availability_div = Some (REMAINING @ ascii ''5'' @ ITEMS),
       seller_feature = Some (ascii ''Amazon.co.jp''),
       shipper_feature = Some (ascii ''Amazon.co.jp'') \<rparr>"

text \<open>A primary page without a price node and without availability text.\<close>

definition bare_page :: main_soup where
  "bare_page =
     \<lparr> price_span = None, availability_div = None,
       seller_feature = None, shipper_feature = None \<rparr>"

text \<open>A panel of three offers, the first one the buy-box offer of \<open>trusted_page\<close> again.\<close>

definition panel_three :: "offer_el list" where
  "panel_three =
     [panel_entry ''1,000'' ''Amazon.co.jp'' ''Amazon.co.jp'',
      panel_entry ''900'' ''shop A'' ''shop A'',
      panel_entry ''1,500'' ''shop B'' ''Amazon'']"

text \<open>A panel of four offers with the total prices 100, 110, 120 and 130.\<close>

definition panel_four :: "offer_el list" where
  "panel_four =
     [panel_entry ''130'' ''shop D'' ''shop D'',
      panel_entry ''100'' ''shop A'' ''Amazon'',
      panel_entry ''120'' ''shop C'' ''shop C'',
      panel_entry ''110'' ''shop B'' ''Amazon'']"

text \<open>A panel of two offers.\<close>

definition panel_two :: "offer_el list" where
  "panel_two =
     [panel_entry ''450'' ''shop A'' ''shop A'',
      panel_entry ''500'' ''shop B'' ''Amazon'']"

text \<open>
  A panel of three offers priced \<open>2 ^ 53 + 1\<close>, the least positive integer that is not a
  float.
\<close>

definition panel_huge :: "offer_el list" where
  "panel_huge =
     [panel_entry ''9007199254740993'' ''shop A'' ''shop A'',
      panel_entry ''9007199254740993'' ''shop B'' ''shop B'',
      panel_entry ''9007199254740993'' ''shop C'' ''shop C'']"

text \<open>
  A panel with a new offer, a used one (its heading is the used marker followed by
  " - good") and a second new offer.
\<close>

definition panel_with_used :: "offer_el list" where
  "panel_with_used =
     [panel_entry ''120'' ''shop A'' ''Amazon'',
      \<lparr> condition_span = Some (USED_MARK @ ascii '' - good''),
        el_price_span = Some (ascii ''80''),
        delivery_price = None, shipping_span = None,
        seller_el = Some (ascii ''shop U''), shipper_el = Some (ascii ''shop U'') \<rparr>,
      panel_entry ''130'' ''shop B'' ''shop B'']"

text \<open>
  A panel of three offers priced 100, 110 and 120, each with a delivery price of 50.
\<close>

definition panel_with_fees :: "offer_el list" where
  "panel_with_fees =
     map (\<lambda>el. el\<lparr> delivery_price := Some (ascii ''50'') \<rparr>)
       [panel_entry ''100'' ''shop A'' ''shop A'',
        panel_entry ''110'' ''shop B'' ''Amazon'',
        panel_entry ''120'' ''shop C'' ''shop C'']"

text \<open>The float 0.8.\<close>

definition LOWER_080 :: pyfloat where
  "LOWER_080 = Fin (3602879701896397 / 4503599627370496)"

section \<open>Properties of the floating-point model\<close>

lemma pow2_powi: "pow2 e = 2 powi e"
  by (simp add: pow2_def power_int_def inverse_eq_divide power_one_over)

lemma pow2_pos: "0 < pow2 e"
  by (simp add: pow2_powi)

lemma pow2_add: "pow2 (a + b) = pow2 a * pow2 b"
  by (simp add: pow2_powi power_int_add)

lemma pow2_mono: "a \<le> b \<Longrightarrow> pow2 a \<le> pow2 b"
  by (simp add: pow2_powi power_int_increasing)

lemma pow2_nat: "0 \<le> e \<Longrightarrow> pow2 e = of_int (2 ^ nat e)"
  by (simp add: pow2_def)

lemma rhe_ge: "of_int k \<le> x \<Longrightarrow> k \<le> round_half_even x"
  unfolding round_half_even_def Let_def
  by (auto simp: le_floor_iff) (smt (verit) le_floor_iff)+

lemma rhe_le: "x \<le> of_int k \<Longrightarrow> round_half_even x \<le> k"
proof (cases "x = of_int k")
  case True
  then show ?thesis by (simp add: round_half_even_def)
next
  case False
  assume "x \<le> of_int k"
  with False have "x < of_int k" by simp
  then have "\<lfloor>x\<rfloor> < k" by (simp add: floor_less_iff)
  then show ?thesis by (simp add: round_half_even_def Let_def)
qed

lemma ilog2_lower:
  assumes "0 < x"
  shows "pow2 (ilog2 x) \<le> x"
proof -
  obtain p q where pq: "quotient_of x = (p, q)" by (cases "quotient_of x")
  then have q: "0 < q" and x: "x = of_int p / of_int q"
    by (auto simp: quotient_of_denom_pos quotient_of_div)
  with assms have p: "0 < p" by (simp add: zero_less_divide_iff)
  define bp where "bp = bitlen p"
  define bq where "bq = bitlen q"
  have bp1: "1 \<le> bp" using p bitlen_eq_zero_iff[of p] bitlen_nonneg[of p] by (simp add: bp_def) 
  have bq0: "0 \<le> bq" by (simp add: bq_def bitlen_nonneg)
  have "(2::int) ^ nat (bp - 1) \<le> p" using bitlen_bounds[OF p] by (simp add: bp_def)
  then have lo: "pow2 (bp - 1) \<le> of_int p"
    using bp1 by (simp add: pow2_nat)
  have "q < 2 ^ nat bq" using bitlen_bounds[OF q] by (simp add: bq_def)
  then have hi: "of_int q \<le> pow2 bq"
    using bq0 by (simp add: pow2_nat)
  have "pow2 (bp - bq - 1) * of_int q \<le> pow2 (bp - bq - 1) * pow2 bq"
    using hi pow2_pos[of "bp - bq - 1"] by (simp add: mult_left_mono)
  also have "\<dots> = pow2 (bp - 1)" by (simp flip: pow2_add)
  also have "\<dots> \<le> of_int p" by (rule lo)
  finally have "pow2 (bp - bq - 1) \<le> x" using q by (simp add: x pos_le_divide_eq)
  then show ?thesis
    by (simp add: ilog2_def pq Let_def bp_def bq_def)
qed

lemma rhe_nonneg: "0 \<le> x \<Longrightarrow> 0 \<le> round_half_even x"
  using rhe_ge[of 0 x] by simp

lemma pow2_neg_int: "e \<le> 0 \<Longrightarrow> 1 / pow2 e = of_int (2 ^ nat (- e))"
  by (cases "e = 0") (simp_all add: pow2_def)

lemma pow2_53: "pow2 53 = 9007199254740992"
  by (simp add: pow2_def)

lemma pow2_52: "pow2 52 = 4503599627370496"
  by (simp add: pow2_def)

lemma DBL_OVERFLOW_pow2: "DBL_OVERFLOW = pow2 1024"
  by (simp add: DBL_OVERFLOW_def pow2_def)

lemma round_pos_exponent:
  assumes "0 < x" "x < 9007199254740992"
  shows "max (ilog2 x - 52) (- 1074) \<le> 0"
proof -
  have "\<not> 53 \<le> ilog2 x"
  proof
    assume "53 \<le> ilog2 x"
    then have "pow2 53 \<le> pow2 (ilog2 x)" by (rule pow2_mono)
    also have "\<dots> \<le> x" using assms(1) by (rule ilog2_lower)
    finally show False using assms(2) by (simp add: pow2_53)
  qed
  then show ?thesis by simp
qed

lemma round_pos_le:
  assumes "0 < x" "x \<le> of_int y" "y < 9007199254740992"
  shows "float_le_int (round_pos x) y"
proof -
  define e where "e = max (ilog2 x - 52) (- 1074)"
  define K where "K = y * 2 ^ nat (- e)"
  have "(of_int y :: rat) < 9007199254740992" using assms(3) by linarith
  with assms(2) have "x < 9007199254740992" by linarith
  then have e: "e \<le> 0" unfolding e_def using assms(1) by (intro round_pos_exponent)
  have inv: "1 / pow2 e = of_int (2 ^ nat (- e))" using e by (rule pow2_neg_int)
  have "x / pow2 e = x * (1 / pow2 e)" by simp
  also have "\<dots> \<le> of_int y * (1 / pow2 e)"
    using assms(2) pow2_pos[of e] by (intro mult_right_mono) simp_all
  also have "\<dots> = of_int K" by (simp add: K_def inv)
  finally have "round_half_even (x / pow2 e) \<le> K" by (rule rhe_le)
  then have "of_int (round_half_even (x / pow2 e)) * pow2 e \<le> (of_int K :: rat) * pow2 e"
    using pow2_pos[of e] by (intro mult_right_mono) simp_all
  also have "(of_int K :: rat) * pow2 e = of_int y"
    using inv pow2_pos[of e] by (simp add: K_def field_simps)
  finally have r: "of_int (round_half_even (x / pow2 e)) * pow2 e \<le> (of_int y :: rat)" .
  have "(of_int y :: rat) < pow2 1024"
  proof -
    have "(of_int y :: rat) < pow2 53" using assms(3) by (simp add: pow2_53)
    also have "\<dots> \<le> pow2 1024" by (rule pow2_mono) simp
    finally show ?thesis .
  qed
  with r have "\<not> pow2 1024 \<le> of_int (round_half_even (x / pow2 e)) * pow2 e" by simp
  with r show ?thesis
    by (simp add: round_pos_def DBL_OVERFLOW_pow2 Let_def flip: e_def)
qed

lemma round_pos_ge:
  assumes "0 < x" "of_int y \<le> x" "y < 9007199254740992"
  shows "int_le_float y (round_pos x)"
proof -
  define e where "e = max (ilog2 x - 52) (- 1074)"
  define m where "m = round_half_even (x / pow2 e)"
  have "(of_int y :: rat) \<le> of_int m * pow2 e"
  proof (cases "e \<le> 0")
    case True
    define K where "K = y * 2 ^ nat (- e)"
    have inv: "1 / pow2 e = of_int (2 ^ nat (- e))" using True by (rule pow2_neg_int)
    have "of_int K = of_int y * (1 / pow2 e)" by (simp add: K_def inv)
    also have "\<dots> \<le> x * (1 / pow2 e)"
      using assms(2) pow2_pos[of e] by (intro mult_right_mono) simp_all
    finally have "of_int K \<le> x / pow2 e" by simp
    then have "K \<le> m" unfolding m_def by (rule rhe_ge)
    then have "(of_int K :: rat) * pow2 e \<le> of_int m * pow2 e"
      using pow2_pos[of e] by (intro mult_right_mono) simp_all
    moreover have "(of_int K :: rat) * pow2 e = of_int y"
      using inv pow2_pos[of e] by (simp add: K_def field_simps)
    ultimately show ?thesis by simp
  next
    case False
    then have e: "e = ilog2 x - 52" and e1: "1 \<le> e" by (simp_all add: e_def max_def split: if_splits)
    have "pow2 52 * pow2 e = pow2 (ilog2 x)" by (simp add: e flip: pow2_add)
    also have "\<dots> \<le> x" using assms(1) by (rule ilog2_lower)
    finally have "pow2 52 \<le> x / pow2 e" using pow2_pos[of e] by (simp add: pos_le_divide_eq)
    then have "of_int 4503599627370496 \<le> x / pow2 e" by (simp add: pow2_52)
    then have "4503599627370496 \<le> m" unfolding m_def by (rule rhe_ge)
    then have m: "(4503599627370496 :: rat) \<le> of_int m" by linarith
    have "pow2 1 \<le> pow2 e" using e1 by (rule pow2_mono)
    then have p: "2 \<le> pow2 e" by (simp add: pow2_def)
    have "(4503599627370496 :: rat) * 2 \<le> of_int m * pow2 e"
      using m p by (intro mult_mono) simp_all
    moreover have "(of_int y :: rat) < 9007199254740992" using assms(3) by linarith
    ultimately show ?thesis by simp
  qed
  then show ?thesis
    by (simp add: round_pos_def DBL_OVERFLOW_pow2 Let_def flip: e_def m_def)
qed

lemma round_double_le:
  assumes "x \<le> of_int y" "0 \<le> y" "y < 9007199254740992"
  shows "float_le_int (round_double x) y"
proof -
  consider "x = 0" | "0 < x" | "x < 0" by linarith
  then show ?thesis
  proof cases
    case 1
    then show ?thesis using assms(2) by (simp add: round_double_def)
  next
    case 2
    then show ?thesis using assms by (simp add: round_double_def round_pos_le)
  next
    case 3
    then have "int_le_float 0 (round_pos (- x))" by (intro round_pos_ge) simp_all
    then have "float_le_int (fneg (round_pos (- x))) y"
      using assms(2) by (cases "round_pos (- x)") simp_all
    then show ?thesis using 3 by (simp add: round_double_def)
  qed
qed

lemma round_double_ge:
  assumes "of_int y \<le> x" "0 \<le> y" "y < 9007199254740992"
  shows "int_le_float y (round_double x)"
proof (cases "x = 0")
  case True
  then show ?thesis using assms(1) by (simp add: round_double_def)
next
  case False
  have "(0::rat) \<le> of_int y" using assms(2) by simp
  with assms(1) False have "0 < x" by linarith
  then show ?thesis using assms by (simp add: round_double_def round_pos_ge)
qed

lemma float_of_int_exact:
  assumes "0 \<le> n" "n < 9007199254740992"
  shows "float_of_int n = Inr (Fin (of_int n))"
proof -
  have le: "float_le_int (round_double (of_int n)) n"
    using assms by (intro round_double_le) simp_all
  have ge: "int_le_float n (round_double (of_int n))"
    using assms by (intro round_double_ge) simp_all
  from le ge have "round_double (of_int n) = Fin (of_int n)"
    by (cases "round_double (of_int n)") simp_all
  then show ?thesis by (simp add: float_of_int_def)
qed

lemma reference_in_band:
  assumes "0 \<le> n" "n < 9007199254740992" "l \<le> 1" "1 \<le> u"
  shows "\<exists>lb ub. int_mul_float n (Fin l) = Inr lb \<and> int_mul_float n (Fin u) = Inr ub
           \<and> float_le_int lb n \<and> int_le_float n ub"
proof -
  have "of_int n * l \<le> of_int n * 1" using assms(1,3) by (intro mult_left_mono) simp_all
  then have lo: "float_le_int (round_double (of_int n * l)) n"
    using assms(1,2) by (intro round_double_le) simp_all
  have "of_int n * 1 \<le> of_int n * u" using assms(1,4) by (intro mult_left_mono) simp_all
  then have hi: "int_le_float n (round_double (of_int n * u))"
    using assms(1,2) by (intro round_double_ge) simp_all
  show ?thesis
    using lo hi by (simp add: int_mul_float_def float_of_int_exact[OF assms(1,2)])
qed

section \<open>Properties of the loops\<close>

lemma dedup_loop_acc: "dedup_loop xs acc seen = acc @ dedup_loop xs [] seen"
proof (induction xs arbitrary: acc seen)
  case Nil
  show ?case by simp
next
  case (Cons x xs)
  show ?case
  proof (cases "offer_identifier x \<in> seen")
    case True
    then show ?thesis using Cons.IH[of acc seen] by simp
  next
    case False
    have "dedup_loop xs (acc @ [x]) (insert (offer_identifier x) seen)
            = (acc @ [x]) @ dedup_loop xs [] (insert (offer_identifier x) seen)"
      by (rule Cons.IH)
    moreover have "dedup_loop xs [x] (insert (offer_identifier x) seen)
            = [x] @ dedup_loop xs [] (insert (offer_identifier x) seen)"
      by (rule Cons.IH)
    ultimately show ?thesis using False by simp
  qed
qed

lemma dedup_loop_Cons:
  "dedup_loop (x # xs) [] seen =
     (if offer_identifier x \<in> seen then dedup_loop xs [] seen
      else x # dedup_loop xs [] (insert (offer_identifier x) seen))"
  using dedup_loop_acc[of xs "[x]" "insert (offer_identifier x) seen"] by simp

lemma dedup_loop_keys:
  "set (map offer_identifier (dedup_loop xs [] seen)) = set (map offer_identifier xs) - seen"
  by (induction xs arbitrary: seen) (auto simp: dedup_loop_Cons simp del: dedup_loop.simps(2))

lemma dedup_loop_distinct: "distinct (map offer_identifier (dedup_loop xs [] seen))"
proof (induction xs arbitrary: seen)
  case Nil
  show ?case by simp
next
  case (Cons x xs)
  have "offer_identifier x \<notin> set (map offer_identifier
          (dedup_loop xs [] (insert (offer_identifier x) seen)))"
    by (simp only: dedup_loop_keys) simp
  then show ?case using Cons.IH by (simp add: dedup_loop_Cons del: dedup_loop.simps(2))
qed

lemma dedup_loop_subseq: "subseq (dedup_loop xs [] seen) xs"
  by (induction xs arbitrary: seen) (auto simp: dedup_loop_Cons simp del: dedup_loop.simps(2))

lemma dedup_loop_first:
  "y \<in> set (dedup_loop xs [] seen) \<Longrightarrow>
     find (\<lambda>x. offer_identifier x = offer_identifier y) xs = Some y"
proof (induction xs arbitrary: seen)
  case Nil
  then show ?case by simp
next
  case (Cons x xs)
  show ?case
  proof (cases "offer_identifier x \<in> seen")
    case True
    with Cons.prems have y: "y \<in> set (dedup_loop xs [] seen)"
      by (simp add: dedup_loop_Cons del: dedup_loop.simps(2))
    then have "offer_identifier y \<in> set (map offer_identifier (dedup_loop xs [] seen))"
      by simp
    then have "offer_identifier y \<notin> seen" by (simp only: dedup_loop_keys) simp
    with True have "offer_identifier x \<noteq> offer_identifier y" by auto
    then show ?thesis using Cons.IH[OF y] by simp
  next
    case False
    with Cons.prems
    consider "y = x" | "y \<in> set (dedup_loop xs [] (insert (offer_identifier x) seen))"
      by (auto simp add: dedup_loop_Cons simp del: dedup_loop.simps(2))
    then show ?thesis
    proof cases
      case 1
      then show ?thesis by simp
    next
      case 2
      then have "offer_identifier y \<in> set (map offer_identifier
                   (dedup_loop xs [] (insert (offer_identifier x) seen)))"
        by simp
      then have "offer_identifier y \<noteq> offer_identifier x"
        by (simp only: dedup_loop_keys) auto
      then show ?thesis using Cons.IH[OF 2] by auto
    qed
  qed
qed

lemma dedup_loop_fixed:
  "distinct (map offer_identifier ys) \<Longrightarrow> set (map offer_identifier ys) \<inter> seen = {} \<Longrightarrow>
     dedup_loop ys [] seen = ys"
  by (induction ys arbitrary: seen) (auto simp: dedup_loop_Cons simp del: dedup_loop.simps(2))

lemma dedup_idem: "dedup (dedup xs) = dedup xs"
  unfolding dedup_def by (rule dedup_loop_fixed) (simp_all only: dedup_loop_distinct Int_empty_right)

lemma set_dedup: "set (dedup xs) \<subseteq> set xs"
proof
  fix y
  assume "y \<in> set (dedup xs)"
  then have "find (\<lambda>x. offer_identifier x = offer_identifier y) xs = Some y"
    unfolding dedup_def by (rule dedup_loop_first)
  then show "y \<in> set xs" by (auto simp: find_Some_iff)
qed

lemma band_loop_filter:
  "band_loop lb ub xs acc =
     acc @ filter (\<lambda>offer. float_le_int lb (total_price offer)
                          \<and> int_le_float (total_price offer) ub) xs"
  by (induction xs arbitrary: acc) simp_all

lemma display_loop_filter:
  "display_loop bid xs acc = acc @ filter (\<lambda>offer. offer_identifier offer \<noteq> bid) xs"
  by (induction xs arbitrary: acc) simp_all

section \<open>Properties of the resolution\<close>

lemma success_ne_error: "SUCCESS \<noteq> ERROR"
  by (simp add: SUCCESS_def ERROR_def ascii_def)

lemma get_product_data_parsed:
  "get_product_data True (Inr soup) (Inr els) lo up =
     aggregate (parse_main_page_buybox soup) (parse_side_panel_offers els) lo up"
  by (simp add: get_product_data_def)

lemma get_product_data_failed:
  "\<not> driver \<or> (\<exists>e. main_page = Inl e) \<or> (\<exists>e. side_panel = Inl e) \<Longrightarrow>
     get_product_data driver main_page side_panel lo up = get_error_result"
  by (auto simp: get_product_data_def Let_def split: sum.splits)

lemma aggregate_Inl:
  "select_price b (dedup (all_offers b side)) lo up = Inl e \<Longrightarrow>
     aggregate b side lo up = get_error_result"
  by (simp add: aggregate_def Let_def)

lemma aggregate_Inr:
  assumes "select_price b (dedup (all_offers b side)) lo up = Inr sel"
  shows "status (aggregate b side lo up) = SUCCESS"
    and "optimal_price (aggregate b side lo up) = sel_price sel"
    and "optimal_price_condition (aggregate b side lo up) = sel_condition sel"
    and "optimal_price_shipper (aggregate b side lo up) = sel_shipper sel"
    and "optimal_price_seller (aggregate b side lo up) = sel_seller sel"
    and "effective_sellers_count (aggregate b side lo up) = PInt (int (sel_count sel))"
    and "total_offers (aggregate b side lo up) = PInt (int (length (dedup (all_offers b side))))"
    and "r_real_stock (aggregate b side lo up) = PInt (real_stock b)"
    and "buybox_info (aggregate b side lo up) = buybox_info_of b"
    and "offers (aggregate b side lo up) =
           sort_key total_price
             (filter (\<lambda>offer. offer_identifier offer \<noteq> buybox_identifier b) (sel_group sel))"
  using assms by (simp_all add: aggregate_def Let_def display_loop_filter)

lemma aggregate_status:
  "status (aggregate b side lo up) = SUCCESS \<Longrightarrow>
     \<exists>sel. select_price b (dedup (all_offers b side)) lo up = Inr sel"
  by (cases "select_price b (dedup (all_offers b side)) lo up")
     (simp_all add: aggregate_Inl get_error_result_def success_ne_error[symmetric])

lemma select_price_trusted:
  assumes "buybox_trusted b"
  shows "\<exists>p. bb_price b = PInt p \<and>
           select_price b unique lo up =
             Inr \<lparr> sel_price = PInt (p + bb_shipping_fee b), sel_condition = bb_condition b,
                   sel_shipper = bb_shipper b, sel_seller = bb_seller b,
                   sel_count = length unique, sel_group = unique \<rparr>"
  using assms by (cases "bb_price b") (simp_all add: buybox_trusted_def select_price_def)

lemma select_price_untrusted:
  "\<not> buybox_trusted b \<Longrightarrow> select_price b unique lo up = band_rule unique lo up"
  by (cases "bb_price b") (auto simp: buybox_trusted_def select_price_def)

lemma band_rule_sparse:
  "length unique < 3 \<Longrightarrow>
     band_rule unique lo up =
       Inr \<lparr> sel_price = PStr NA, sel_condition = NA, sel_shipper = NA, sel_seller = NA,
             sel_count = length unique, sel_group = sort_key total_price unique \<rparr>"
  by (simp add: band_rule_def Let_def)

lemma median_index_less: "0 < n \<Longrightarrow> median_index n < n"
  by (auto simp: median_index_def)

lemma band_rule_Inr:
  assumes "band_rule unique lo up = Inr sel" and "3 \<le> length unique"
  shows "\<exists>fb. float_of_int (total_price (sort_key total_price unique ! 2)) = Inr fb
     \<and> sel_group sel =
         filter (\<lambda>offer. float_le_int (fmul fb lo) (total_price offer)
                        \<and> int_le_float (total_price offer) (fmul fb up))
           (sort_key total_price unique)
     \<and> sel_count sel = length (sel_group sel)
     \<and> (if 3 \<le> length (sel_group sel) then
           sel_price sel = PInt (total_price (sort_key total_price (sel_group sel)
                                   ! median_index (length (sel_group sel))))
           \<and> sel_condition sel = condition (sort_key total_price (sel_group sel)
                                   ! median_index (length (sel_group sel)))
           \<and> sel_shipper sel = shipper (sort_key total_price (sel_group sel)
                                   ! median_index (length (sel_group sel)))
           \<and> sel_seller sel = seller (sort_key total_price (sel_group sel)
                                   ! median_index (length (sel_group sel)))
         else sel_price sel = PStr NA \<and> sel_condition sel = NA
              \<and> sel_shipper sel = NA \<and> sel_seller sel = NA)"
proof (cases "float_of_int (total_price (sort_key total_price unique ! 2))")
  case (Inl e)
  with assms show ?thesis by (simp add: band_rule_def int_mul_float_def Let_def)
next
  case (Inr fb)
  with assms show ?thesis
    by (auto simp: band_rule_def int_mul_float_def Let_def band_loop_filter
             split: if_splits sum.splits)
qed

lemma select_price_count:
  "select_price b unique lo up = Inr sel \<Longrightarrow> sel_count sel = length (sel_group sel)"
proof (cases "buybox_trusted b")
  case True
  assume a: "select_price b unique lo up = Inr sel"
  from select_price_trusted[OF True, of unique lo up] a show ?thesis by auto
next
  case False
  assume a: "select_price b unique lo up = Inr sel"
  then have br: "band_rule unique lo up = Inr sel" using False by (simp add: select_price_untrusted)
  show ?thesis
  proof (cases "3 \<le> length unique")
    case True
    from band_rule_Inr[OF br True] show ?thesis by blast
  next
    case False
    then have "length unique < 3" by simp
    from band_rule_sparse[OF this, of lo up] br show ?thesis by auto
  qed
qed

lemma resolution_selection:
  assumes "b = parse_main_page_buybox soup"
    and "unique = dedup (all_offers b (parse_side_panel_offers els))"
    and "r = get_product_data True (Inr soup) (Inr els) lo up"
    and "status r = SUCCESS"
  shows "\<exists>sel. select_price b unique lo up = Inr sel
           \<and> optimal_price r = sel_price sel
           \<and> optimal_price_condition r = sel_condition sel
           \<and> optimal_price_shipper r = sel_shipper sel
           \<and> optimal_price_seller r = sel_seller sel
           \<and> effective_sellers_count r = PInt (int (length (sel_group sel)))"
proof -
  have r: "r = aggregate b (parse_side_panel_offers els) lo up"
    by (simp add: assms(1,3) get_product_data_parsed)
  with assms(4) obtain sel
    where sel: "select_price b (dedup (all_offers b (parse_side_panel_offers els))) lo up = Inr sel"
    using aggregate_status by blast
  show ?thesis
    using aggregate_Inr[OF sel] sel select_price_count[OF sel] by (simp add: r assms(2))
qed

lemma decimal_value_nonneg: "decimal_value c = Some d \<Longrightarrow> 0 \<le> d"
  by (auto simp: decimal_value_def find_Some_iff split: option.splits)

lemma foldl_digits_nonneg:
  "0 \<le> a \<Longrightarrow>
     0 \<le> foldl (\<lambda>a c. 10 * a + (case decimal_value c of None \<Rightarrow> 0 | Some d \<Rightarrow> d)) a s"
proof (induction s arbitrary: a)
  case Nil
  then show ?case by simp
next
  case (Cons c s)
  have "0 \<le> 10 * a + (case decimal_value c of None \<Rightarrow> 0 | Some d \<Rightarrow> d)"
    using Cons.prems by (auto split: option.splits dest: decimal_value_nonneg)
  then show ?case using Cons.IH by simp
qed

lemma int_of_digits_nonneg: "0 \<le> int_of_digits s"
  unfolding int_of_digits_def by (rule foldl_digits_nonneg) simp

lemma clean_price_nonneg: "clean_price t = Some p \<Longrightarrow> 0 \<le> p"
  by (auto simp: clean_price_def Let_def int_of_digits_nonneg split: option.splits if_splits)

lemma clean_shipping_fee_nonneg: "0 \<le> clean_shipping_fee t"
  by (simp add: clean_shipping_fee_def Let_def int_of_digits_nonneg)

lemma parse_offer_nonneg: "parse_offer el = Some offer \<Longrightarrow> 0 \<le> total_price offer"
  by (auto simp: parse_offer_def Let_def total_price_def clean_shipping_fee_nonneg
           split: option.splits if_splits dest!: clean_price_nonneg)

lemma parse_side_panel_offers_nonneg:
  "offer \<in> set (parse_side_panel_offers els) \<Longrightarrow> 0 \<le> total_price offer"
  by (induction els) (auto split: option.splits dest: parse_offer_nonneg)

lemma all_offers_nonneg:
  assumes "offer \<in> set (all_offers (parse_main_page_buybox soup) (parse_side_panel_offers els))"
  shows "0 \<le> total_price offer"
proof (cases "offer \<in> set (parse_side_panel_offers els)")
  case True
  then show ?thesis by (rule parse_side_panel_offers_nonneg)
next
  case False
  with assms obtain p where p: "bb_price (parse_main_page_buybox soup) = PInt p"
    and o: "offer = as_offer p (parse_main_page_buybox soup)"
    by (cases "bb_price (parse_main_page_buybox soup)") (simp_all add: all_offers_def)
  from p have "0 \<le> p"
    by (auto simp: parse_main_page_buybox_def Let_def split: option.splits
             dest: clean_price_nonneg)
  then show ?thesis
    by (simp add: o as_offer_def total_price_def parse_main_page_buybox_def Let_def)
qed

lemma dedup_head: "x \<in> set (dedup (x # xs))"
  by (simp add: dedup_def dedup_loop_Cons del: dedup_loop.simps(2))

lemma untrusted_group_ge3:
  assumes "\<not> buybox_trusted b"
    and "select_price b unique lo up = Inr sel"
    and "3 \<le> length (sel_group sel)"
  shows "sel_price sel = PInt (total_price (sort_key total_price (sel_group sel)
                                 ! median_index (length (sel_group sel))))
       \<and> sel_condition sel = condition (sort_key total_price (sel_group sel)
                                 ! median_index (length (sel_group sel)))
       \<and> sel_shipper sel = shipper (sort_key total_price (sel_group sel)
                                 ! median_index (length (sel_group sel)))
       \<and> sel_seller sel = seller (sort_key total_price (sel_group sel)
                                 ! median_index (length (sel_group sel)))
       \<and> set (sel_group sel) \<subseteq> set unique"
proof -
  from assms(1,2) have br: "band_rule unique lo up = Inr sel"
    by (simp add: select_price_untrusted)
  have len: "3 \<le> length unique"
  proof (rule ccontr)
    assume "\<not> 3 \<le> length unique"
    then have "length unique < 3" by simp
    from band_rule_sparse[OF this, of lo up] br
    have "sel_group sel = sort_key total_price unique" by auto
    with assms(3) \<open>length unique < 3\<close> show False by simp
  qed
  from band_rule_Inr[OF br len] assms(3) show ?thesis by auto
qed

lemma untrusted_group_lt3:
  assumes "\<not> buybox_trusted b"
    and "select_price b unique lo up = Inr sel"
    and "length (sel_group sel) < 3"
  shows "sel_price sel = PStr NA"
proof -
  from assms(1,2) have br: "band_rule unique lo up = Inr sel"
    by (simp add: select_price_untrusted)
  show ?thesis
  proof (cases "3 \<le> length unique")
    case True
    from band_rule_Inr[OF br True] assms(3) show ?thesis by auto
  next
    case False
    then have "length unique < 3" by simp
    from band_rule_sparse[OF this, of lo up] br show ?thesis by auto
  qed
qed

lemma used_not_in_sentinels:
  "\<not> py_in USED_MARK NEW_COND" "\<not> py_in USED_MARK NA" "NEW_COND \<noteq> NA"
  by (simp_all add: USED_MARK_def NEW_COND_def NA_def ascii_def)

lemma parse_offer_not_used:
  "parse_offer el = Some offer \<Longrightarrow> \<not> py_in USED_MARK (condition offer)"
  by (auto simp: parse_offer_def Let_def split: option.splits if_splits)

lemma parse_side_panel_offers_not_used:
  "offer \<in> set (parse_side_panel_offers els) \<Longrightarrow> \<not> py_in USED_MARK (condition offer)"
  by (induction els) (auto split: option.splits dest: parse_offer_not_used)

lemma buybox_condition:
  "bb_condition (parse_main_page_buybox soup) =
     (case bb_price (parse_main_page_buybox soup) of PInt p \<Rightarrow> NEW_COND | _ \<Rightarrow> NA)"
  by (simp add: parse_main_page_buybox_def Let_def split: option.splits)

lemma all_offers_not_used:
  assumes "offer \<in> set (all_offers (parse_main_page_buybox soup) (parse_side_panel_offers els))"
  shows "\<not> py_in USED_MARK (condition offer)"
proof (cases "offer \<in> set (parse_side_panel_offers els)")
  case True
  then show ?thesis by (rule parse_side_panel_offers_not_used)
next
  case False
  with assms obtain p where p: "bb_price (parse_main_page_buybox soup) = PInt p"
    and o: "offer = as_offer p (parse_main_page_buybox soup)"
    by (cases "bb_price (parse_main_page_buybox soup)") (simp_all add: all_offers_def)
  have "condition offer = NEW_COND"
    by (simp add: o as_offer_def buybox_condition p)
  then show ?thesis by (simp add: used_not_in_sentinels)
qed

lemma sel_group_subset:
  assumes "select_price b unique lo up = Inr sel"
  shows "set (sel_group sel) \<subseteq> set unique"
proof (cases "buybox_trusted b")
  case True
  from select_price_trusted[OF True, of unique lo up] assms show ?thesis by auto
next
  case False
  show ?thesis
  proof (cases "3 \<le> length (sel_group sel)")
    case True
    from untrusted_group_ge3[OF False assms True] show ?thesis by blast
  next
    case False
    note small = this
    from assms \<open>\<not> buybox_trusted b\<close> have br: "band_rule unique lo up = Inr sel"
      by (simp add: select_price_untrusted)
    show ?thesis
    proof (cases "3 \<le> length unique")
      case True
      from band_rule_Inr[OF br True] show ?thesis by auto
    next
      case False
      then have "length unique < 3" by simp
      from band_rule_sparse[OF this, of lo up] br show ?thesis by auto
    qed
  qed
qed

lemma result_offers_subset:
  "set (offers (get_product_data driver main_page side_panel lo up)) \<subseteq>
     (case (main_page, side_panel) of
        (Inr soup, Inr els) \<Rightarrow>
           set (dedup (all_offers (parse_main_page_buybox soup) (parse_side_panel_offers els)))
      | _ \<Rightarrow> {})"
proof (cases "driver \<and> (\<exists>soup. main_page = Inr soup) \<and> (\<exists>els. side_panel = Inr els)")
  case False
  then have "\<not> driver \<or> (\<exists>e. main_page = Inl e) \<or> (\<exists>e. side_panel = Inl e)"
    by (metis sum.exhaust)
  from get_product_data_failed[OF this] show ?thesis
    by (simp add: get_error_result_def)
next
  case True
  then obtain soup els where d: "driver" and m: "main_page = Inr soup" and s: "side_panel = Inr els"
    by blast
  let ?b = "parse_main_page_buybox soup"
  let ?side = "parse_side_panel_offers els"
  show ?thesis
  proof (cases "select_price ?b (dedup (all_offers ?b ?side)) lo up")
    case (Inl e)
    then show ?thesis
      using d by (simp add: m s get_product_data_parsed aggregate_Inl get_error_result_def)
  next
    case (Inr sel)
    from sel_group_subset[OF Inr] aggregate_Inr(10)[OF Inr] show ?thesis
      using d by (auto simp: m s get_product_data_parsed)
  qed
qed

lemma sufficient_ne_insufficient: "SUFFICIENT \<noteq> INSUFFICIENT"
  by (simp add: SUFFICIENT_def INSUFFICIENT_def)

lemma err_ne_success: "ERROR \<noteq> SUCCESS"
  by (simp add: SUCCESS_def ERROR_def ascii_def)

lemma get_product_data_cases:
  "get_product_data driver main_page side_panel lo up = get_error_result
   \<or> (\<exists>soup els sel. driver \<and> main_page = Inr soup \<and> side_panel = Inr els
        \<and> select_price (parse_main_page_buybox soup)
              (dedup (all_offers (parse_main_page_buybox soup) (parse_side_panel_offers els)))
              lo up = Inr sel
        \<and> get_product_data driver main_page side_panel lo up
            = aggregate (parse_main_page_buybox soup) (parse_side_panel_offers els) lo up)"
proof (cases "driver \<and> (\<exists>soup. main_page = Inr soup) \<and> (\<exists>els. side_panel = Inr els)")
  case False
  then have "\<not> driver \<or> (\<exists>e. main_page = Inl e) \<or> (\<exists>e. side_panel = Inl e)"
    by (metis sum.exhaust)
  from get_product_data_failed[OF this] show ?thesis by simp
next
  case True
  then obtain soup els where d: "driver" and m: "main_page = Inr soup" and s: "side_panel = Inr els"
    by blast
  let ?b = "parse_main_page_buybox soup"
  let ?side = "parse_side_panel_offers els"
  show ?thesis
  proof (cases "select_price ?b (dedup (all_offers ?b ?side)) lo up")
    case (Inl e)
    then show ?thesis
      using d by (simp add: m s get_product_data_parsed aggregate_Inl)
  next
    case (Inr sel)
    then show ?thesis
      using d by (simp add: m s get_product_data_parsed)
  qed
qed

lemma aggregate_counts:
  assumes "select_price b (dedup (all_offers b side)) lo up = Inr sel"
  shows "fba_count (aggregate b side lo up)
           = PInt (int (length (filter (\<lambda>offer. is_fba (shipper offer))
                                  (dedup (all_offers b side)))))"
    and "fbm_count (aggregate b side lo up)
           = PInt (int (length (dedup (all_offers b side)))
                   - int (length (filter (\<lambda>offer. is_fba (shipper offer))
                                    (dedup (all_offers b side)))))"
    and "inventory_score (aggregate b side lo up)
           = PInt (2 * int (length (filter (\<lambda>offer. is_fba (shipper offer))
                                      (dedup (all_offers b side))))
                   + (int (length (dedup (all_offers b side)))
                      - int (length (filter (\<lambda>offer. is_fba (shipper offer))
                                       (dedup (all_offers b side))))))"
proof -
  have "sum_list (map (\<lambda>offer. 1 :: int) xs) = int (length xs)" for xs :: "offer list"
    by (induction xs) simp_all
  then show
    "fba_count (aggregate b side lo up)
       = PInt (int (length (filter (\<lambda>offer. is_fba (shipper offer))
                              (dedup (all_offers b side)))))"
    "fbm_count (aggregate b side lo up)
       = PInt (int (length (dedup (all_offers b side)))
               - int (length (filter (\<lambda>offer. is_fba (shipper offer))
                                (dedup (all_offers b side)))))"
    "inventory_score (aggregate b side lo up)
       = PInt (2 * int (length (filter (\<lambda>offer. is_fba (shipper offer))
                                  (dedup (all_offers b side))))
               + (int (length (dedup (all_offers b side)))
                  - int (length (filter (\<lambda>offer. is_fba (shipper offer))
                                   (dedup (all_offers b side))))))"
    using assms by (simp_all add: aggregate_def Let_def)
qed

lemma length_offer_cells: "length (concat (map offer_cells xs)) = 5 * length xs"
  by (induction xs) (simp_all add: offer_cells_def)

section \<open>Deduplication\<close>

text \<open>
  Claim C7. The merged sequence is the buy-box offer, present only when its price is an
  integer, followed by the panel offers. Deduplication keeps, for every key (price,
  seller, shipper) of the list, exactly the first offer that carries it, in the order of
  the list, and deduplicating twice changes nothing.
\<close>

theorem dedup_first_occurrence:
  "all_offers b side = (case bb_price b of PInt p \<Rightarrow> as_offer p b # side | _ \<Rightarrow> side)
   \<and> distinct (map offer_identifier (dedup L))
   \<and> set (map offer_identifier (dedup L)) = set (map offer_identifier L)
   \<and> subseq (dedup L) L
   \<and> (\<forall>y \<in> set (dedup L). find (\<lambda>x. offer_identifier x = offer_identifier y) L = Some y)
   \<and> dedup (dedup L) = dedup L"
proof (intro conjI ballI)
  show "all_offers b side = (case bb_price b of PInt p \<Rightarrow> as_offer p b # side | _ \<Rightarrow> side)"
    by (simp add: all_offers_def split: pyval.splits)
  show "distinct (map offer_identifier (dedup L))"
    unfolding dedup_def by (rule dedup_loop_distinct)
  show "set (map offer_identifier (dedup L)) = set (map offer_identifier L)"
    unfolding dedup_def by (simp only: dedup_loop_keys Diff_empty)
  show "subseq (dedup L) L"
    unfolding dedup_def by (rule dedup_loop_subseq)
  show "find (\<lambda>x. offer_identifier x = offer_identifier y) L = Some y"
    if "y \<in> set (dedup L)" for y
    using that unfolding dedup_def by (rule dedup_loop_first)
  show "dedup (dedup L) = dedup L"
    by (rule dedup_idem)
qed

theorem dedup_first_occurrence_witness:
  "dedup [mk_offer 100 0 ''s1'' ''Amazon'', mk_offer 120 0 ''s2'' ''x'',
          mk_offer 100 50 ''s1'' ''Amazon'', mk_offer 120 0 ''s3'' ''x'']
     = [mk_offer 100 0 ''s1'' ''Amazon'', mk_offer 120 0 ''s2'' ''x'', mk_offer 120 0 ''s3'' ''x'']
   \<and> find (\<lambda>x. offer_identifier x = offer_identifier (mk_offer 100 50 ''s1'' ''Amazon''))
        [mk_offer 100 0 ''s1'' ''Amazon'', mk_offer 120 0 ''s2'' ''x'',
         mk_offer 100 50 ''s1'' ''Amazon'', mk_offer 120 0 ''s3'' ''x'']
       = Some (mk_offer 100 0 ''s1'' ''Amazon'')
   \<and> dedup (dedup [mk_offer 100 0 ''s1'' ''Amazon'', mk_offer 120 0 ''s2'' ''x'',
          mk_offer 100 50 ''s1'' ''Amazon'', mk_offer 120 0 ''s3'' ''x''])
     = dedup [mk_offer 100 0 ''s1'' ''Amazon'', mk_offer 120 0 ''s2'' ''x'',
          mk_offer 100 50 ''s1'' ''Amazon'', mk_offer 120 0 ''s3'' ''x'']"
proof -
  let ?L = "[mk_offer 100 0 ''s1'' ''Amazon'', mk_offer 120 0 ''s2'' ''x'',
             mk_offer 100 50 ''s1'' ''Amazon'', mk_offer 120 0 ''s3'' ''x'']"
  have d: "dedup ?L = [mk_offer 100 0 ''s1'' ''Amazon'', mk_offer 120 0 ''s2'' ''x'',
                       mk_offer 120 0 ''s3'' ''x'']"
    by (simp add: dedup_def mk_offer_def offer_identifier_def ascii_def)
  have m: "mk_offer 100 0 ''s1'' ''Amazon'' \<in> set (dedup ?L)"
    by (simp only: d) simp
  have k: "offer_identifier (mk_offer 100 0 ''s1'' ''Amazon'')
             = offer_identifier (mk_offer 100 50 ''s1'' ''Amazon'')"
    by (simp add: offer_identifier_def mk_offer_def)
  from dedup_first_occurrence[of "parse_main_page_buybox bare_page" "[]" ?L] m
  have "find (\<lambda>x. offer_identifier x = offer_identifier (mk_offer 100 0 ''s1'' ''Amazon'')) ?L
          = Some (mk_offer 100 0 ''s1'' ''Amazon'')"
    by blast
  moreover from dedup_first_occurrence[of "parse_main_page_buybox bare_page" "[]" ?L]
  have "dedup (dedup ?L) = dedup ?L" by blast
  ultimately show ?thesis using d k by simp
qed

section \<open>The buy-box trust rule\<close>

text \<open>
  Claim C2. When the buy-box parsed from the primary page has a stock above 2, an
  integer price and a shipper text that names the platform, the resolution succeeds, the
  optimal price is the buy-box price plus its shipping fee, the optimal condition, shipper
  and seller are those of the buy-box, the price group is the whole list of unique
  offers, unfiltered, and the number of effective sellers is the length of that list.
\<close>

theorem buybox_trust_rule:
  assumes "b = parse_main_page_buybox soup"
    and "unique = dedup (all_offers b (parse_side_panel_offers els))"
    and "r = get_product_data True (Inr soup) (Inr els) lower_multiplier upper_multiplier"
    and "2 < real_stock b"
    and "bb_price b = PInt p"
    and "is_fba (bb_shipper b)"
  shows "status r = SUCCESS
     \<and> optimal_price r = PInt (p + bb_shipping_fee b)
     \<and> optimal_price_condition r = bb_condition b
     \<and> optimal_price_shipper r = bb_shipper b
     \<and> optimal_price_seller r = bb_seller b
     \<and> (\<exists>sel. select_price b unique lower_multiplier upper_multiplier = Inr sel
               \<and> sel_group sel = unique)
     \<and> effective_sellers_count r = PInt (int (length unique))
     \<and> total_offers r = PInt (int (length unique))"
proof -
  have "buybox_trusted b" using assms(4-6) by (simp add: buybox_trusted_def)
  from select_price_trusted[OF this, of unique lower_multiplier upper_multiplier] assms(5)
  have sel: "select_price b unique lower_multiplier upper_multiplier =
               Inr \<lparr> sel_price = PInt (p + bb_shipping_fee b), sel_condition = bb_condition b,
                     sel_shipper = bb_shipper b, sel_seller = bb_seller b,
                     sel_count = length unique, sel_group = unique \<rparr>"
    by simp
  have r: "r = aggregate b (parse_side_panel_offers els) lower_multiplier upper_multiplier"
    by (simp add: assms(1,3) get_product_data_parsed)
  show ?thesis
    using aggregate_Inr[OF sel[unfolded assms(2)]] sel
    by (simp add: r assms(2))
qed

theorem buybox_trust_rule_witness:
  "2 < real_stock (parse_main_page_buybox trusted_page)
   \<and> bb_price (parse_main_page_buybox trusted_page) = PInt 1000
   \<and> is_fba (bb_shipper (parse_main_page_buybox trusted_page))
   \<and> optimal_price (get_product_data True (Inr trusted_page) (Inr panel_three)
                      DEFAULT_LOWER DEFAULT_UPPER) = PInt 1000
   \<and> effective_sellers_count (get_product_data True (Inr trusted_page) (Inr panel_three)
                                DEFAULT_LOWER DEFAULT_UPPER) = PInt 3"
proof -
  let ?b = "parse_main_page_buybox trusted_page"
  have h1: "2 < real_stock ?b" by code_simp
  have h2: "bb_price ?b = PInt 1000" by code_simp
  have h3: "is_fba (bb_shipper ?b)" by code_simp
  have fee: "bb_shipping_fee ?b = 0" by code_simp
  have len: "length (dedup (all_offers ?b (parse_side_panel_offers panel_three))) = 3"
    by code_simp
  from buybox_trust_rule[OF refl refl refl h1 h2 h3, of panel_three DEFAULT_LOWER DEFAULT_UPPER]
  show ?thesis using h1 h2 h3 by (simp add: fee len)
qed

section \<open>Fewer than three offers\<close>

text \<open>
  Claim C8. When the buy-box is not trusted and there are fewer than three unique
  offers, the price group is the list of all unique offers (sorted by total price, none
  removed), the optimal price stays "N/A" and the number of effective sellers is the
  number of unique offers; with exactly two unique offers it is 2.
\<close>

theorem sparse_offers:
  assumes "b = parse_main_page_buybox soup"
    and "unique = dedup (all_offers b (parse_side_panel_offers els))"
    and "r = get_product_data True (Inr soup) (Inr els) lower_multiplier upper_multiplier"
    and "\<not> buybox_trusted b"
    and "length unique < 3"
  shows "status r = SUCCESS
     \<and> optimal_price r = PStr NA
     \<and> effective_sellers_count r = PInt (int (length unique))
     \<and> (\<exists>sel. select_price b unique lower_multiplier upper_multiplier = Inr sel
               \<and> sel_group sel = sort_key total_price unique
               \<and> mset (sel_group sel) = mset unique)
     \<and> (length unique = 2 \<longrightarrow>
           optimal_price r = PStr NA \<and> effective_sellers_count r = PInt 2)"
proof -
  have sel: "select_price b unique lower_multiplier upper_multiplier =
               Inr \<lparr> sel_price = PStr NA, sel_condition = NA, sel_shipper = NA, sel_seller = NA,
                     sel_count = length unique, sel_group = sort_key total_price unique \<rparr>"
    using assms(4,5) by (simp add: select_price_untrusted band_rule_sparse)
  have r: "r = aggregate b (parse_side_panel_offers els) lower_multiplier upper_multiplier"
    by (simp add: assms(1,3) get_product_data_parsed)
  show ?thesis
    using aggregate_Inr[OF sel[unfolded assms(2)]] sel
    by (simp add: r assms(2))
qed

theorem sparse_offers_witness:
  "\<not> buybox_trusted (parse_main_page_buybox bare_page)
   \<and> length (dedup (all_offers (parse_main_page_buybox bare_page)
                       (parse_side_panel_offers panel_two))) = 2
   \<and> optimal_price (get_product_data True (Inr bare_page) (Inr panel_two)
                      DEFAULT_LOWER DEFAULT_UPPER) = PStr NA
   \<and> effective_sellers_count (get_product_data True (Inr bare_page) (Inr panel_two)
                                DEFAULT_LOWER DEFAULT_UPPER) = PInt 2"
proof -
  let ?b = "parse_main_page_buybox bare_page"
  have h1: "\<not> buybox_trusted ?b" by code_simp
  have len: "length (dedup (all_offers ?b (parse_side_panel_offers panel_two))) = 2"
    by code_simp
  then have h2: "length (dedup (all_offers ?b (parse_side_panel_offers panel_two))) < 3"
    by simp
  from sparse_offers[OF refl refl refl h1 h2, of DEFAULT_LOWER DEFAULT_UPPER]
  show ?thesis using h1 len by simp
qed

section \<open>The price band\<close>

text \<open>
  Claim C4. When the buy-box is not trusted and there are three or more unique offers,
  a successful resolution takes as reference the offer at index 2 of the unique offers
  sorted ascending by total price. The band bounds are the floating-point products of
  the reference total (converted to a float) with the lower and the upper multiplier;
  the price group consists of exactly the sorted offers whose integer total lies between
  the two bounds, both ends included, the integer compared exactly with the floats; and
  the number of effective sellers is the size of that group.
\<close>

theorem band_eligible_set:
  assumes "b = parse_main_page_buybox soup"
    and "unique = dedup (all_offers b (parse_side_panel_offers els))"
    and "r = get_product_data True (Inr soup) (Inr els) lower_multiplier upper_multiplier"
    and "status r = SUCCESS"
    and "\<not> buybox_trusted b"
    and "3 \<le> length unique"
  shows "\<exists>sel reference.
           select_price b unique lower_multiplier upper_multiplier = Inr sel
         \<and> sorted (map total_price (sort_key total_price unique))
         \<and> mset (sort_key total_price unique) = mset unique
         \<and> float_of_int (total_price (sort_key total_price unique ! 2)) = Inr reference
         \<and> sel_group sel =
             filter (\<lambda>offer. float_le_int (fmul reference lower_multiplier) (total_price offer)
                            \<and> int_le_float (total_price offer)
                                 (fmul reference upper_multiplier))
               (sort_key total_price unique)
         \<and> effective_sellers_count r = PInt (int (length (sel_group sel)))"
proof -
  from resolution_selection[OF assms(1-4)] obtain sel
    where sel: "select_price b unique lower_multiplier upper_multiplier = Inr sel"
      and cnt: "effective_sellers_count r = PInt (int (length (sel_group sel)))"
    by blast
  from sel assms(5) have "band_rule unique lower_multiplier upper_multiplier = Inr sel"
    by (simp add: select_price_untrusted)
  from band_rule_Inr[OF this assms(6)] obtain fb
    where "float_of_int (total_price (sort_key total_price unique ! 2)) = Inr fb"
      and "sel_group sel =
             filter (\<lambda>offer. float_le_int (fmul fb lower_multiplier) (total_price offer)
                            \<and> int_le_float (total_price offer) (fmul fb upper_multiplier))
               (sort_key total_price unique)"
    by blast
  with sel cnt show ?thesis by (intro exI[of _ sel] exI[of _ fb]) simp
qed

theorem band_eligible_set_witness:
  "status (get_product_data True (Inr bare_page) (Inr panel_four) DEFAULT_LOWER DEFAULT_UPPER)
     = SUCCESS
   \<and> \<not> buybox_trusted (parse_main_page_buybox bare_page)
   \<and> 3 \<le> length (dedup (all_offers (parse_main_page_buybox bare_page)
                           (parse_side_panel_offers panel_four)))
   \<and> map total_price
        (filter (\<lambda>offer. float_le_int (fmul (Fin 120) DEFAULT_LOWER) (total_price offer)
                       \<and> int_le_float (total_price offer) (fmul (Fin 120) DEFAULT_UPPER))
           (sort_key total_price
              (dedup (all_offers (parse_main_page_buybox bare_page)
                        (parse_side_panel_offers panel_four)))))
       = [110, 120, 130]
   \<and> effective_sellers_count
        (get_product_data True (Inr bare_page) (Inr panel_four) DEFAULT_LOWER DEFAULT_UPPER)
       = PInt 3"
proof -
  let ?b = "parse_main_page_buybox bare_page"
  let ?u = "dedup (all_offers ?b (parse_side_panel_offers panel_four))"
  let ?r = "get_product_data True (Inr bare_page) (Inr panel_four) DEFAULT_LOWER DEFAULT_UPPER"
  have h1: "status ?r = SUCCESS" by code_simp
  have h2: "\<not> buybox_trusted ?b" by code_simp
  have h3: "3 \<le> length ?u" by code_simp
  have ref: "float_of_int (total_price (sort_key total_price ?u ! 2)) = Inr (Fin 120)"
    by code_simp
  have band: "map total_price
        (filter (\<lambda>offer. float_le_int (fmul (Fin 120) DEFAULT_LOWER) (total_price offer)
                       \<and> int_le_float (total_price offer) (fmul (Fin 120) DEFAULT_UPPER))
           (sort_key total_price ?u)) = [110, 120, 130]"
    by code_simp
  from band_eligible_set[OF refl refl refl h1 h2 h3] ref
  have "effective_sellers_count ?r =
      PInt (int (length (map total_price
        (filter (\<lambda>offer. float_le_int (fmul (Fin 120) DEFAULT_LOWER) (total_price offer)
                       \<and> int_le_float (total_price offer) (fmul (Fin 120) DEFAULT_UPPER))
           (sort_key total_price ?u)))))"
    by (elim exE conjE) simp
  then have "effective_sellers_count ?r = PInt 3" by (simp only: band) simp
  with h1 h2 h3 band show ?thesis by blast
qed

section \<open>The median of the band\<close>

text \<open>
  Claim C3. Under the band rule (buy-box not trusted), whenever the price group of a
  successful resolution holds at least three offers, the optimal offer is the median of
  the group sorted ascending by total price: the element at index \<open>n div 2\<close> for an odd
  number \<open>n\<close> of offers and at index \<open>n div 2 - 1\<close>, the lower of the two middle
  elements, for an even one. The optimal price is its total price, and the optimal
  condition, shipper and seller are its own. In particular a group with the total prices
  100, 110, 120, 130 gives the optimal price 110.
\<close>

theorem median_of_band:
  assumes "b = parse_main_page_buybox soup"
    and "unique = dedup (all_offers b (parse_side_panel_offers els))"
    and "r = get_product_data True (Inr soup) (Inr els) lower_multiplier upper_multiplier"
    and "status r = SUCCESS"
    and "\<not> buybox_trusted b"
  shows "\<exists>sel. select_price b unique lower_multiplier upper_multiplier = Inr sel
     \<and> (3 \<le> length (sel_group sel) \<longrightarrow>
          (let s = sort_key total_price (sel_group sel);
               n = length s;
               median_offer = s ! (if odd n then n div 2 else n div 2 - 1)
           in sorted (map total_price s)
              \<and> mset s = mset (sel_group sel)
              \<and> optimal_price r = PInt (total_price median_offer)
              \<and> optimal_price_condition r = condition median_offer
              \<and> optimal_price_shipper r = shipper median_offer
              \<and> optimal_price_seller r = seller median_offer
              \<and> (map total_price s = [100, 110, 120, 130] \<longrightarrow> optimal_price r = PInt 110)))"
proof -
  from resolution_selection[OF assms(1-4)] obtain sel
    where sel: "select_price b unique lower_multiplier upper_multiplier = Inr sel"
      and r: "optimal_price r = sel_price sel"
             "optimal_price_condition r = sel_condition sel"
             "optimal_price_shipper r = sel_shipper sel"
             "optimal_price_seller r = sel_seller sel"
    by blast
  have "let s = sort_key total_price (sel_group sel);
            n = length s;
            median_offer = s ! (if odd n then n div 2 else n div 2 - 1)
        in sorted (map total_price s)
           \<and> mset s = mset (sel_group sel)
           \<and> optimal_price r = PInt (total_price median_offer)
           \<and> optimal_price_condition r = condition median_offer
           \<and> optimal_price_shipper r = shipper median_offer
           \<and> optimal_price_seller r = seller median_offer
           \<and> (map total_price s = [100, 110, 120, 130] \<longrightarrow> optimal_price r = PInt 110)"
    if ge: "3 \<le> length (sel_group sel)"
  proof -
    let ?s = "sort_key total_price (sel_group sel)"
    have idx: "median_index (length (sel_group sel))
                 = (if odd (length ?s) then length ?s div 2 else length ?s div 2 - 1)"
      by (simp add: median_index_def odd_iff_mod_2_eq_one)
    note m = untrusted_group_ge3[OF assms(5) sel ge, unfolded idx]
    have opt: "optimal_price r
                 = PInt (total_price (?s ! (if odd (length ?s) then length ?s div 2
                                            else length ?s div 2 - 1)))"
      using m by (simp add: r)
    have ex: "optimal_price r = PInt 110" if "map total_price ?s = [100, 110, 120, 130]"
    proof -
      have "length (map total_price ?s) = 4" by (simp only: that) simp
      then have l: "length ?s = 4" by (simp only: length_map)
      then have "total_price (?s ! 1) = map total_price ?s ! 1" by simp
      also have "\<dots> = 110" by (simp only: that) simp
      finally show ?thesis using opt l by simp
    qed
    show ?thesis
      using m opt ex by (simp add: Let_def r)
  qed
  with sel show ?thesis by blast
qed

theorem median_of_band_witness:
  "status (get_product_data True (Inr bare_page) (Inr panel_four) LOWER_080 DEFAULT_UPPER)
     = SUCCESS
   \<and> \<not> buybox_trusted (parse_main_page_buybox bare_page)
   \<and> (case select_price (parse_main_page_buybox bare_page)
              (dedup (all_offers (parse_main_page_buybox bare_page)
                        (parse_side_panel_offers panel_four)))
              LOWER_080 DEFAULT_UPPER of
         Inl e \<Rightarrow> False
       | Inr sel \<Rightarrow>
           map total_price (sort_key total_price (sel_group sel)) = [100, 110, 120, 130])
   \<and> optimal_price (get_product_data True (Inr bare_page) (Inr panel_four)
                      LOWER_080 DEFAULT_UPPER) = PInt 110"
proof -
  let ?b = "parse_main_page_buybox bare_page"
  let ?u = "dedup (all_offers ?b (parse_side_panel_offers panel_four))"
  let ?r = "get_product_data True (Inr bare_page) (Inr panel_four) LOWER_080 DEFAULT_UPPER"
  have h1: "status ?r = SUCCESS" by code_simp
  have h2: "\<not> buybox_trusted ?b" by code_simp
  have h3: "case select_price ?b ?u LOWER_080 DEFAULT_UPPER of
              Inl e \<Rightarrow> False
            | Inr sel \<Rightarrow>
                map total_price (sort_key total_price (sel_group sel)) = [100, 110, 120, 130]"
    by code_simp
  from median_of_band[OF refl refl refl h1 h2] obtain sel
    where sel: "select_price ?b ?u LOWER_080 DEFAULT_UPPER = Inr sel"
      and med: "3 \<le> length (sel_group sel) \<longrightarrow>
          (let s = sort_key total_price (sel_group sel);
               n = length s;
               median_offer = s ! (if odd n then n div 2 else n div 2 - 1)
           in sorted (map total_price s)
              \<and> mset s = mset (sel_group sel)
              \<and> optimal_price ?r = PInt (total_price median_offer)
              \<and> optimal_price_condition ?r = condition median_offer
              \<and> optimal_price_shipper ?r = shipper median_offer
              \<and> optimal_price_seller ?r = seller median_offer
              \<and> (map total_price s = [100, 110, 120, 130] \<longrightarrow> optimal_price ?r = PInt 110))"
    by blast
  from h3 sel
  have tot: "map total_price (sort_key total_price (sel_group sel)) = [100, 110, 120, 130]"
    by simp
  have "length (map total_price (sort_key total_price (sel_group sel))) = 4"
    by (simp only: tot) simp
  then have ge: "3 \<le> length (sel_group sel)" by simp
  from med[unfolded Let_def] ge tot have "optimal_price ?r = PInt 110" by blast
  with h1 h2 h3 show ?thesis by blast
qed

section \<open>The optimal price is an offer's price\<close>

text \<open>
  Claim C5 does not hold when "price" is the field \<open>price\<close> of an offer. Three offers
  priced 100, 110 and 120 with a shipping fee of 50 each give the optimal price 160, the
  median total, which is the \<open>price\<close> of none of them.
\<close>

theorem optimal_price_is_offer_total_counterexample:
  "status (get_product_data True (Inr bare_page) (Inr panel_with_fees)
             DEFAULT_LOWER DEFAULT_UPPER) = SUCCESS
   \<and> optimal_price (get_product_data True (Inr bare_page) (Inr panel_with_fees)
                      DEFAULT_LOWER DEFAULT_UPPER) = PInt 160
   \<and> map price (dedup (all_offers (parse_main_page_buybox bare_page)
                          (parse_side_panel_offers panel_with_fees))) = [100, 110, 120]
   \<and> map shipping_fee (dedup (all_offers (parse_main_page_buybox bare_page)
                                 (parse_side_panel_offers panel_with_fees))) = [50, 50, 50]
   \<and> \<not> (\<exists>offer \<in> set (dedup (all_offers (parse_main_page_buybox bare_page)
                                     (parse_side_panel_offers panel_with_fees))).
            optimal_price (get_product_data True (Inr bare_page) (Inr panel_with_fees)
                             DEFAULT_LOWER DEFAULT_UPPER) = PInt (price offer))"
  by code_simp

text \<open>
  Claim C5, amended. In every successful resolution whose optimal price is resolved (not
  the "N/A" sentinel), the optimal price is the total price, price plus shipping fee, of
  an offer that is in the set of unique offers: it is never an average or a value taken
  from outside the set.
\<close>

theorem optimal_price_is_offer_total:
  assumes "b = parse_main_page_buybox soup"
    and "unique = dedup (all_offers b (parse_side_panel_offers els))"
    and "r = get_product_data True (Inr soup) (Inr els) lower_multiplier upper_multiplier"
    and "status r = SUCCESS"
    and "optimal_price r \<noteq> PStr NA"
  shows "\<exists>offer \<in> set unique. optimal_price r = PInt (total_price offer)"
proof -
  from resolution_selection[OF assms(1-4)] obtain sel
    where sel: "select_price b unique lower_multiplier upper_multiplier = Inr sel"
      and r: "optimal_price r = sel_price sel"
    by blast
  show ?thesis
  proof (cases "buybox_trusted b")
    case True
    from select_price_trusted[OF True, of unique lower_multiplier upper_multiplier] sel
    obtain p where p: "bb_price b = PInt p"
      and sp: "sel_price sel = PInt (p + bb_shipping_fee b)"
      by auto
    have "all_offers b (parse_side_panel_offers els)
            = as_offer p b # parse_side_panel_offers els"
      by (simp add: all_offers_def p)
    then have "as_offer p b \<in> set unique"
      by (simp only: assms(2) dedup_head)
    moreover have "optimal_price r = PInt (total_price (as_offer p b))"
      by (simp add: r sp total_price_def as_offer_def)
    ultimately show ?thesis by blast
  next
    case False
    have ge: "3 \<le> length (sel_group sel)"
    proof (rule ccontr)
      assume "\<not> 3 \<le> length (sel_group sel)"
      then have "length (sel_group sel) < 3" by simp
      from untrusted_group_lt3[OF False sel this] assms(5) show False by (simp add: r)
    qed
    let ?s = "sort_key total_price (sel_group sel)"
    let ?m = "?s ! median_index (length (sel_group sel))"
    from untrusted_group_ge3[OF False sel ge]
    have sp: "sel_price sel = PInt (total_price ?m)"
      and sub: "set (sel_group sel) \<subseteq> set unique"
      by blast+
    have "0 < length (sel_group sel)" using ge by linarith
    then have "median_index (length (sel_group sel)) < length ?s"
      by (simp add: median_index_less)
    then have "?m \<in> set ?s" by (rule nth_mem)
    then have "?m \<in> set unique" using sub by auto
    then show ?thesis using sp r by auto
  qed
qed

theorem optimal_price_is_offer_total_witness:
  "status (get_product_data True (Inr bare_page) (Inr panel_four) DEFAULT_LOWER DEFAULT_UPPER)
     = SUCCESS
   \<and> optimal_price (get_product_data True (Inr bare_page) (Inr panel_four)
                      DEFAULT_LOWER DEFAULT_UPPER) = PInt 120
   \<and> (\<exists>offer. offer \<in> set (dedup (all_offers (parse_main_page_buybox bare_page)
                                      (parse_side_panel_offers panel_four)))
              \<and> total_price offer = 120)"
proof -
  let ?r = "get_product_data True (Inr bare_page) (Inr panel_four) DEFAULT_LOWER DEFAULT_UPPER"
  have h1: "status ?r = SUCCESS" by code_simp
  have opt: "optimal_price ?r = PInt 120" by code_simp
  then have h2: "optimal_price ?r \<noteq> PStr NA" by simp
  from optimal_price_is_offer_total[OF refl refl refl h1 h2] opt h1
  show ?thesis by auto
qed

section \<open>The reference offer and its own band\<close>

text \<open>
  Claim C10 does not hold as stated. With three offers priced \<open>2 ^ 53 + 1\<close>, the default
  lower multiplier 0.85 and the upper multiplier 1.0, the reference total converts to
  the float \<open>2 ^ 53\<close>, the upper bound is \<open>2 ^ 53\<close>, and the exact comparison places the
  reference offer above its own band: the price group is empty and the number of
  effective sellers is 0.
\<close>

theorem reference_offer_in_band_counterexample:
  "\<not> buybox_trusted (parse_main_page_buybox bare_page)
   \<and> length (dedup (all_offers (parse_main_page_buybox bare_page)
                       (parse_side_panel_offers panel_huge))) = 3
   \<and> DEFAULT_LOWER = Fin (7656119366529843 / 9007199254740992)
   \<and> (7656119366529843 / 9007199254740992 :: rat) \<le> 1
   \<and> (1 :: rat) \<le> 1
   \<and> total_price (sort_key total_price
         (dedup (all_offers (parse_main_page_buybox bare_page)
                   (parse_side_panel_offers panel_huge))) ! 2) = 9007199254740993
   \<and> int_mul_float 9007199254740993 (Fin 1) = Inr (Fin 9007199254740992)
   \<and> \<not> int_le_float 9007199254740993 (Fin 9007199254740992)
   \<and> status (get_product_data True (Inr bare_page) (Inr panel_huge) DEFAULT_LOWER (Fin 1))
       = SUCCESS
   \<and> select_price (parse_main_page_buybox bare_page)
        (dedup (all_offers (parse_main_page_buybox bare_page)
                  (parse_side_panel_offers panel_huge)))
        DEFAULT_LOWER (Fin 1)
       = Inr \<lparr> sel_price = PStr NA, sel_condition = NA, sel_shipper = NA, sel_seller = NA,
               sel_count = 0, sel_group = [] \<rparr>
   \<and> effective_sellers_count
        (get_product_data True (Inr bare_page) (Inr panel_huge) DEFAULT_LOWER (Fin 1))
       = PInt 0"
  by code_simp

text \<open>
  Claim C10, amended. If the buy-box is not trusted, there are at least three unique
  offers, the multipliers are finite floats with lower \<open>\<le> 1 \<le>\<close> upper, and the reference
  total is below \<open>2 ^ 53\<close> (so that it converts to a float exactly), then in every
  successful resolution the reference offer's own total lies inside the band, the
  price group is not empty and the number of effective sellers is at least 1.
\<close>

theorem reference_offer_in_band:
  assumes "b = parse_main_page_buybox soup"
    and "unique = dedup (all_offers b (parse_side_panel_offers els))"
    and "r = get_product_data True (Inr soup) (Inr els) lower_multiplier upper_multiplier"
    and "status r = SUCCESS"
    and "\<not> buybox_trusted b"
    and "3 \<le> length unique"
    and "lower_multiplier = Fin l" and "l \<le> 1"
    and "upper_multiplier = Fin u" and "1 \<le> u"
    and "total_price (sort_key total_price unique ! 2) < 9007199254740992"
  shows "\<exists>sel lb ub.
           select_price b unique lower_multiplier upper_multiplier = Inr sel
         \<and> int_mul_float (total_price (sort_key total_price unique ! 2)) lower_multiplier
             = Inr lb
         \<and> int_mul_float (total_price (sort_key total_price unique ! 2)) upper_multiplier
             = Inr ub
         \<and> float_le_int lb (total_price (sort_key total_price unique ! 2))
         \<and> int_le_float (total_price (sort_key total_price unique ! 2)) ub
         \<and> sort_key total_price unique ! 2 \<in> set (sel_group sel)
         \<and> sel_group sel \<noteq> []
         \<and> (\<exists>k. effective_sellers_count r = PInt k \<and> 1 \<le> k)"
proof -
  let ?ref = "sort_key total_price unique ! 2"
  let ?n = "total_price ?ref"
  from resolution_selection[OF assms(1-4)] obtain sel
    where sel: "select_price b unique lower_multiplier upper_multiplier = Inr sel"
      and cnt: "effective_sellers_count r = PInt (int (length (sel_group sel)))"
    by blast
  from sel assms(5) have br: "band_rule unique lower_multiplier upper_multiplier = Inr sel"
    by (simp add: select_price_untrusted)
  have mem: "?ref \<in> set (sort_key total_price unique)"
    using assms(6) by (intro nth_mem) simp
  then have "?ref \<in> set unique" by simp
  then have "?ref \<in> set (all_offers b (parse_side_panel_offers els))"
    using set_dedup by (auto simp: assms(2))
  then have n0: "0 \<le> ?n" unfolding assms(1) by (rule all_offers_nonneg)
  from reference_in_band[OF n0 assms(11) assms(8) assms(10)] obtain lb ub
    where lb: "int_mul_float ?n (Fin l) = Inr lb"
      and ub: "int_mul_float ?n (Fin u) = Inr ub"
      and lo: "float_le_int lb ?n" and hi: "int_le_float ?n ub"
    by blast
  have ex: "float_of_int ?n = Inr (Fin (of_int ?n))"
    using n0 assms(11) by (rule float_of_int_exact)
  with lb ub have lbv: "lb = fmul (Fin (of_int ?n)) (Fin l)"
    and ubv: "ub = fmul (Fin (of_int ?n)) (Fin u)"
    by (simp_all add: int_mul_float_def)
  from band_rule_Inr[OF br assms(6)] ex
  have grp: "sel_group sel =
      filter (\<lambda>offer. float_le_int (fmul (Fin (of_int ?n)) lower_multiplier) (total_price offer)
                     \<and> int_le_float (total_price offer)
                          (fmul (Fin (of_int ?n)) upper_multiplier))
        (sort_key total_price unique)"
    by auto
  have in_grp: "?ref \<in> set (sel_group sel)"
    unfolding grp using mem lo hi by (simp add: lbv ubv assms(7,9))
  then have ne: "sel_group sel \<noteq> []" by auto
  then have "1 \<le> int (length (sel_group sel))" by (cases "sel_group sel") simp_all
  with cnt have k: "\<exists>k. effective_sellers_count r = PInt k \<and> 1 \<le> k" by blast
  show ?thesis
    using sel lb ub lo hi in_grp ne k by (simp add: assms(7,9))
qed

theorem reference_offer_in_band_witness:
  "status (get_product_data True (Inr bare_page) (Inr panel_four) DEFAULT_LOWER DEFAULT_UPPER)
     = SUCCESS
   \<and> \<not> buybox_trusted (parse_main_page_buybox bare_page)
   \<and> 3 \<le> length (dedup (all_offers (parse_main_page_buybox bare_page)
                           (parse_side_panel_offers panel_four)))
   \<and> (7656119366529843 / 9007199254740992 :: rat) \<le> 1
   \<and> (1 :: rat) \<le> 2589569785738035 / 2251799813685248
   \<and> total_price (sort_key total_price
         (dedup (all_offers (parse_main_page_buybox bare_page)
                   (parse_side_panel_offers panel_four))) ! 2) = 120
   \<and> (\<exists>k. effective_sellers_count
               (get_product_data True (Inr bare_page) (Inr panel_four)
                  DEFAULT_LOWER DEFAULT_UPPER) = PInt k \<and> 1 \<le> k)"
proof -
  let ?b = "parse_main_page_buybox bare_page"
  let ?u = "dedup (all_offers ?b (parse_side_panel_offers panel_four))"
  have h1: "status (get_product_data True (Inr bare_page) (Inr panel_four)
                      DEFAULT_LOWER DEFAULT_UPPER) = SUCCESS"
    by code_simp
  have h2: "\<not> buybox_trusted ?b" by code_simp
  have h3: "3 \<le> length ?u" by code_simp
  have h4: "(7656119366529843 / 9007199254740992 :: rat) \<le> 1" by simp
  have h5: "(1 :: rat) \<le> 2589569785738035 / 2251799813685248" by simp
  have ref: "total_price (sort_key total_price ?u ! 2) = 120" by code_simp
  then have h6: "total_price (sort_key total_price ?u ! 2) < 9007199254740992" by simp
  from reference_offer_in_band[OF refl refl refl h1 h2 h3 DEFAULT_LOWER_def h4
         DEFAULT_UPPER_def h5 h6]
  have "\<exists>k. effective_sellers_count
               (get_product_data True (Inr bare_page) (Inr panel_four)
                  DEFAULT_LOWER DEFAULT_UPPER) = PInt k \<and> 1 \<le> k"
    by (elim exE conjE) blast
  with h1 h2 h3 h4 h5 ref show ?thesis by blast
qed

section \<open>No used offers\<close>

text \<open>
  Claim C6. No offer of a result is used. A panel entry whose condition text (white
  space normalised) contains the used marker is skipped by the extraction and adds
  nothing to the list; no offer extracted from the panel has the marker in its
  condition; the buy-box condition is either "new" or the sentinel "N/A", neither of
  which contains the marker; and so neither the unique offers nor the offers of the
  result of any resolution contain a used offer.
\<close>

theorem no_used_offers:
  "(\<forall>offer \<in> set (parse_side_panel_offers els). \<not> py_in USED_MARK (condition offer))
   \<and> (\<forall>heading. condition_span el = Some heading
          \<and> py_in USED_MARK (py_join [SPACE] (py_split heading))
          \<longrightarrow> parse_offer el = None \<and> parse_side_panel_offers (el # els)
                                       = parse_side_panel_offers els)
   \<and> (bb_condition (parse_main_page_buybox soup) = NEW_COND
        \<or> bb_condition (parse_main_page_buybox soup) = NA)
   \<and> \<not> py_in USED_MARK (bb_condition (parse_main_page_buybox soup))
   \<and> (\<forall>offer \<in> set (dedup (all_offers (parse_main_page_buybox soup)
                                  (parse_side_panel_offers els))).
        \<not> py_in USED_MARK (condition offer))
   \<and> (\<forall>offer \<in> set (offers (get_product_data driver main_page side_panel
                                lower_multiplier upper_multiplier)).
        \<not> py_in USED_MARK (condition offer))"
proof (intro conjI ballI allI impI)
  fix offer
  assume "offer \<in> set (parse_side_panel_offers els)"
  then show "\<not> py_in USED_MARK (condition offer)" by (rule parse_side_panel_offers_not_used)
next
  fix heading
  assume "condition_span el = Some heading
          \<and> py_in USED_MARK (py_join [SPACE] (py_split heading))"
  then show "parse_offer el = None" by (simp add: parse_offer_def Let_def)
  then show "parse_side_panel_offers (el # els) = parse_side_panel_offers els" by simp
next
  show "bb_condition (parse_main_page_buybox soup) = NEW_COND
        \<or> bb_condition (parse_main_page_buybox soup) = NA"
    by (simp add: buybox_condition split: pyval.splits)
  then show "\<not> py_in USED_MARK (bb_condition (parse_main_page_buybox soup))"
    by (auto simp: used_not_in_sentinels)
next
  fix offer
  assume "offer \<in> set (dedup (all_offers (parse_main_page_buybox soup)
                                 (parse_side_panel_offers els)))"
  then have "offer \<in> set (all_offers (parse_main_page_buybox soup)
                             (parse_side_panel_offers els))"
    using set_dedup by auto
  then show "\<not> py_in USED_MARK (condition offer)" by (rule all_offers_not_used)
next
  fix offer
  assume a: "offer \<in> set (offers (get_product_data driver main_page side_panel
                                    lower_multiplier upper_multiplier))"
  with result_offers_subset[of driver main_page side_panel lower_multiplier upper_multiplier]
  obtain soup' els' where
    "offer \<in> set (dedup (all_offers (parse_main_page_buybox soup')
                           (parse_side_panel_offers els')))"
    by (auto split: sum.splits)
  then have "offer \<in> set (all_offers (parse_main_page_buybox soup')
                             (parse_side_panel_offers els'))"
    using set_dedup by auto
  then show "\<not> py_in USED_MARK (condition offer)" by (rule all_offers_not_used)
qed

theorem no_used_offers_witness:
  "condition_span (panel_with_used ! 1) = Some (USED_MARK @ ascii '' - good'')
   \<and> py_in USED_MARK (py_join [SPACE] (py_split (USED_MARK @ ascii '' - good'')))
   \<and> parse_offer (panel_with_used ! 1) = None
   \<and> parse_side_panel_offers panel_with_used
       = [mk_offer 120 0 ''shop A'' ''Amazon'', mk_offer 130 0 ''shop B'' ''shop B'']
   \<and> offers (get_product_data True (Inr trusted_page) (Inr panel_with_used)
                DEFAULT_LOWER DEFAULT_UPPER)
       = [mk_offer 120 0 ''shop A'' ''Amazon'', mk_offer 130 0 ''shop B'' ''shop B'']
   \<and> \<not> py_in USED_MARK (condition (mk_offer 120 0 ''shop A'' ''Amazon''))"
proof -
  have h1: "condition_span (panel_with_used ! 1) = Some (USED_MARK @ ascii '' - good'')"
    by code_simp
  have h2: "py_in USED_MARK (py_join [SPACE] (py_split (USED_MARK @ ascii '' - good'')))"
    by code_simp
  have p: "parse_side_panel_offers panel_with_used
             = [mk_offer 120 0 ''shop A'' ''Amazon'', mk_offer 130 0 ''shop B'' ''shop B'']"
    by code_simp
  have o: "offers (get_product_data True (Inr trusted_page) (Inr panel_with_used)
                     DEFAULT_LOWER DEFAULT_UPPER)
             = [mk_offer 120 0 ''shop A'' ''Amazon'', mk_offer 130 0 ''shop B'' ''shop B'']"
    by code_simp
  note t = no_used_offers[of panel_with_used "panel_with_used ! 1" trusted_page True
             "Inr trusted_page" "Inr panel_with_used" DEFAULT_LOWER DEFAULT_UPPER]
  from t h1 h2 have n: "parse_offer (panel_with_used ! 1) = None" by blast
  from t have "\<forall>offer \<in> set (parse_side_panel_offers panel_with_used).
                 \<not> py_in USED_MARK (condition offer)"
    by blast
  then have "\<not> py_in USED_MARK (condition (mk_offer 120 0 ''shop A'' ''Amazon''))"
    by (simp add: p)
  with h1 h2 n p o show ?thesis by blast
qed

section \<open>The stock verdict\<close>

text \<open>
  Claim C9. For every successful result, the stock verdict written to the row (its
  fifth cell) is "sufficient" if and only if the buy-box stock is above 2 and the
  buy-box is shipped by the platform, or the inventory score is at least 4; otherwise
  it is "insufficient". The inventory score is twice the number of platform-shipped
  unique offers plus the number of the others.
\<close>

theorem stock_status_rule:
  assumes "r = get_product_data driver main_page side_panel lower_multiplier upper_multiplier"
    and "status r = SUCCESS"
  shows "\<exists>soup els fba fbm.
           main_page = Inr soup \<and> side_panel = Inr els
         \<and> r_real_stock r = PInt (real_stock (parse_main_page_buybox soup))
         \<and> d_shipper (buybox_info r) = bb_shipper (parse_main_page_buybox soup)
         \<and> fba = int (length (filter (\<lambda>offer. is_fba (shipper offer))
                     (dedup (all_offers (parse_main_page_buybox soup)
                               (parse_side_panel_offers els)))))
         \<and> fba_count r = PInt fba \<and> fbm_count r = PInt fbm
         \<and> total_offers r = PInt (fba + fbm)
         \<and> inventory_score r = PInt (2 * fba + fbm)
         \<and> values_to_write r ! 4
             = PStr (if stock_sufficient r then SUFFICIENT else INSUFFICIENT)
         \<and> (values_to_write r ! 4 = PStr SUFFICIENT \<longleftrightarrow>
              (2 < real_stock (parse_main_page_buybox soup)
               \<and> is_fba (bb_shipper (parse_main_page_buybox soup)))
              \<or> 4 \<le> 2 * fba + fbm)"
proof -
  from get_product_data_cases[of driver main_page side_panel lower_multiplier upper_multiplier]
    assms
  obtain soup els sel where m: "main_page = Inr soup" and s: "side_panel = Inr els"
    and sel: "select_price (parse_main_page_buybox soup)
                (dedup (all_offers (parse_main_page_buybox soup) (parse_side_panel_offers els)))
                lower_multiplier upper_multiplier = Inr sel"
    and r: "r = aggregate (parse_main_page_buybox soup) (parse_side_panel_offers els)
                  lower_multiplier upper_multiplier"
    by (auto simp: get_error_result_def err_ne_success)
  let ?b = "parse_main_page_buybox soup"
  let ?u = "dedup (all_offers ?b (parse_side_panel_offers els))"
  let ?fba = "int (length (filter (\<lambda>offer. is_fba (shipper offer)) ?u))"
  let ?fbm = "int (length ?u) - ?fba"
  note a = aggregate_Inr[OF sel, folded r] aggregate_counts[OF sel, folded r]
  have row: "values_to_write r ! 4
               = PStr (if stock_sufficient r then SUFFICIENT else INSUFFICIENT)"
    by (simp add: values_to_write_def assms(2))
  have suff: "stock_sufficient r \<longleftrightarrow>
                (2 < real_stock ?b \<and> is_fba (bb_shipper ?b)) \<or> 4 \<le> 2 * ?fba + ?fbm"
    by (simp add: stock_sufficient_def a buybox_info_of_def)
  have "values_to_write r ! 4 = PStr SUFFICIENT \<longleftrightarrow>
          (2 < real_stock ?b \<and> is_fba (bb_shipper ?b)) \<or> 4 \<le> 2 * ?fba + ?fbm"
    unfolding row using suff sufficient_ne_insufficient by auto
  then show ?thesis
    using m s a row
    by (intro exI[of _ soup] exI[of _ els] exI[of _ ?fba] exI[of _ ?fbm])
       (simp add: buybox_info_of_def)
qed

theorem stock_status_rule_witness:
  "status (get_product_data True (Inr bare_page) (Inr panel_four) DEFAULT_LOWER DEFAULT_UPPER)
     = SUCCESS
   \<and> real_stock (parse_main_page_buybox bare_page) = 0
   \<and> inventory_score (get_product_data True (Inr bare_page) (Inr panel_four)
                        DEFAULT_LOWER DEFAULT_UPPER) = PInt 6
   \<and> values_to_write (get_product_data True (Inr bare_page) (Inr panel_four)
                        DEFAULT_LOWER DEFAULT_UPPER) ! 4 = PStr SUFFICIENT
   \<and> inventory_score (get_product_data True (Inr bare_page) (Inr panel_two)
                        DEFAULT_LOWER DEFAULT_UPPER) = PInt 3
   \<and> values_to_write (get_product_data True (Inr bare_page) (Inr panel_two)
                        DEFAULT_LOWER DEFAULT_UPPER) ! 4 = PStr INSUFFICIENT"
proof -
  let ?r = "get_product_data True (Inr bare_page) (Inr panel_four) DEFAULT_LOWER DEFAULT_UPPER"
  let ?q = "get_product_data True (Inr bare_page) (Inr panel_two) DEFAULT_LOWER DEFAULT_UPPER"
  have h1: "status ?r = SUCCESS" by code_simp
  have h2: "real_stock (parse_main_page_buybox bare_page) = 0" by code_simp
  have h3: "inventory_score ?r = PInt 6" by code_simp
  have h4: "inventory_score ?q = PInt 3" by code_simp
  have h5: "values_to_write ?q ! 4 = PStr INSUFFICIENT" by code_simp
  from stock_status_rule[OF refl h1] h3
  have "values_to_write ?r ! 4 = PStr SUFFICIENT" by auto
  with h1 h2 h3 h4 h5 show ?thesis by blast
qed

section \<open>The row of a failed resolution\<close>

text \<open>
  Claim C1 does not hold as stated. After a page-load timeout the result is the error
  result with status "error", but the row built from it has 15 cells, not the 65 of
  the header (15 fixed columns and 10 groups of 5 offer columns); a successful row is
  not 65 cells wide either, here 25 cells for two displayed offers.
\<close>

theorem error_row_counterexample:
  "get_product_data True (Inl TimeoutException) (Inr panel_three) DEFAULT_LOWER DEFAULT_UPPER
     = get_error_result
   \<and> status (get_product_data True (Inl TimeoutException) (Inr panel_three)
               DEFAULT_LOWER DEFAULT_UPPER) = ERROR
   \<and> length (values_to_write
        (get_product_data True (Inl TimeoutException) (Inr panel_three)
           DEFAULT_LOWER DEFAULT_UPPER)) = 15
   \<and> length (values_to_write
        (get_product_data True (Inl TimeoutException) (Inr panel_three)
           DEFAULT_LOWER DEFAULT_UPPER)) \<noteq> 15 + 10 * 5
   \<and> status (get_product_data True (Inr trusted_page) (Inr panel_three)
               DEFAULT_LOWER DEFAULT_UPPER) = SUCCESS
   \<and> length (values_to_write
        (get_product_data True (Inr trusted_page) (Inr panel_three)
           DEFAULT_LOWER DEFAULT_UPPER)) = 25"
  by code_simp

text \<open>
  Claim C1, amended. When the browser is not initialised or loading either page raises,
  the result is the error result, and every resolution either succeeds or returns the
  error result. The error result has status "error", every scalar field and every key
  of its buy-box dictionary is the error sentinel, and its list of offers is empty. Its
  row consists of the error sentinel in each of the 15 fixed columns and has no offer
  cells, where a successful row has 15 cells followed by 5 cells for each of at most 10
  displayed offers.
\<close>

theorem error_row:
  assumes "r = get_product_data driver main_page side_panel lower_multiplier upper_multiplier"
  shows "(\<not> driver \<or> (\<exists>e. main_page = Inl e) \<or> (\<exists>e. side_panel = Inl e)
            \<longrightarrow> r = get_error_result)
     \<and> (status r = SUCCESS \<or> r = get_error_result)
     \<and> (r = get_error_result \<longrightarrow>
           status r = ERROR
         \<and> r_real_stock r = PStr ERR \<and> total_offers r = PStr ERR
         \<and> fba_count r = PStr ERR \<and> fbm_count r = PStr ERR
         \<and> inventory_score r = PStr ERR \<and> effective_sellers_count r = PStr ERR
         \<and> d_price (buybox_info r) = PStr ERR \<and> d_seller (buybox_info r) = ERR
         \<and> d_shipper (buybox_info r) = ERR \<and> d_real_stock (buybox_info r) = PStr ERR
         \<and> d_condition (buybox_info r) = ERR
         \<and> offers r = []
         \<and> optimal_price r = PStr ERR \<and> optimal_price_condition r = ERR
         \<and> optimal_price_shipper r = ERR \<and> optimal_price_seller r = ERR
         \<and> values_to_write r = replicate 15 (PStr ERR)
         \<and> length (values_to_write r) = 15)
     \<and> (status r = SUCCESS \<longrightarrow>
           length (values_to_write r) = 15 + 5 * min 10 (length (offers r)))"
proof (intro conjI impI)
  assume "\<not> driver \<or> (\<exists>e. main_page = Inl e) \<or> (\<exists>e. side_panel = Inl e)"
  then show "r = get_error_result" unfolding assms by (rule get_product_data_failed)
next
  from get_product_data_cases[of driver main_page side_panel lower_multiplier upper_multiplier]
  show "status r = SUCCESS \<or> r = get_error_result"
    unfolding assms by (auto simp: aggregate_Inr(1))
next
  assume e: "r = get_error_result"
  show "status r = ERROR" "r_real_stock r = PStr ERR" "total_offers r = PStr ERR"
    "fba_count r = PStr ERR" "fbm_count r = PStr ERR" "inventory_score r = PStr ERR"
    "effective_sellers_count r = PStr ERR" "d_price (buybox_info r) = PStr ERR"
    "d_seller (buybox_info r) = ERR" "d_shipper (buybox_info r) = ERR"
    "d_real_stock (buybox_info r) = PStr ERR" "d_condition (buybox_info r) = ERR"
    "offers r = []" "optimal_price r = PStr ERR" "optimal_price_condition r = ERR"
    "optimal_price_shipper r = ERR" "optimal_price_seller r = ERR"
    by (simp_all add: e get_error_result_def)
  show v: "values_to_write r = replicate 15 (PStr ERR)"
    by (simp add: e get_error_result_def values_to_write_def err_ne_success)
  show "length (values_to_write r) = 15" by (simp only: v length_replicate)
next
  assume "status r = SUCCESS"
  then show "length (values_to_write r) = 15 + 5 * min 10 (length (offers r))"
    by (simp add: values_to_write_def length_offer_cells MAX_OFFERS_TO_DISPLAY_def min.commute)
qed

theorem error_row_witness:
  "get_product_data True (Inl TimeoutException) (Inr panel_three) DEFAULT_LOWER DEFAULT_UPPER
     = get_error_result
   \<and> values_to_write (get_product_data True (Inl TimeoutException) (Inr panel_three)
                        DEFAULT_LOWER DEFAULT_UPPER)
       = replicate 15 (PStr ERR)
   \<and> status (get_product_data True (Inr trusted_page) (Inr panel_three)
               DEFAULT_LOWER DEFAULT_UPPER) = SUCCESS
   \<and> length (offers (get_product_data True (Inr trusted_page) (Inr panel_three)
                        DEFAULT_LOWER DEFAULT_UPPER)) = 2
   \<and> length (values_to_write (get_product_data True (Inr trusted_page) (Inr panel_three)
                                DEFAULT_LOWER DEFAULT_UPPER)) = 25"
proof -
  let ?e = "get_product_data True (Inl TimeoutException) (Inr panel_three)
              DEFAULT_LOWER DEFAULT_UPPER"
  let ?s = "get_product_data True (Inr trusted_page) (Inr panel_three)
              DEFAULT_LOWER DEFAULT_UPPER"
  have f: "\<not> True \<or> (\<exists>e. (Inl TimeoutException :: error + main_soup) = Inl e)
             \<or> (\<exists>e. (Inr panel_three :: error + offer_el list) = Inl e)"
    by simp
  from error_row[OF refl, of True "Inl TimeoutException" "Inr panel_three"
                  DEFAULT_LOWER DEFAULT_UPPER] f
  have e: "?e = get_error_result" by blast
  with error_row[OF refl, of True "Inl TimeoutException" "Inr panel_three"
                  DEFAULT_LOWER DEFAULT_UPPER]
  have v: "values_to_write ?e = replicate 15 (PStr ERR)" by blast
  have h1: "status ?s = SUCCESS" by code_simp
  have h2: "length (offers ?s) = 2" by code_simp
  from error_row[OF refl, of True "Inr trusted_page" "Inr panel_three"
                  DEFAULT_LOWER DEFAULT_UPPER] h1
  have "length (values_to_write ?s) = 15 + 5 * min 10 (length (offers ?s))" by blast
  then have "length (values_to_write ?s) = 25" by (simp add: h2)
  with e v h1 h2 show ?thesis by blast
qed

end
